theory Spec2Isabelle
  imports Complex_Main
begin

section \<open>dF/F calculation: a shallow embedding of \<open>df_f_calculation.py\<close>\<close>

text \<open>
  The module computes dF/F traces with numpy and pandas. Modelling conventions:
  \<^item> a float64 is a value of \<open>fl\<close>: a real number, one of the two infinities, or NaN.
    Rounding, overflow and the sign of zero are not modelled: arithmetic on finite values
    is exact real arithmetic, and a zero denominator is the positive zero;
  \<^item> a numpy array is one-dimensional (\<open>A1\<close>) or two-dimensional (\<open>A2\<close>, with its shape
    written out, so that arrays with no row or no column keep their shape);
  \<^item> a pandas \<open>DataFrame\<close> is its index length and the list of its columns;
  \<^item> a \<open>ValueError\<close> raised by numpy or pandas is the \<open>Inl\<close> branch of a sum;
  \<^item> the private functions of the module keep their names without the leading underscore.
\<close>

subsection \<open>Floating-point values\<close>

datatype fl = NaN | Fin real | PInf | NInf

fun fl_neg :: "fl \<Rightarrow> fl" where
  "fl_neg NaN = NaN"
| "fl_neg (Fin x) = Fin (- x)"
| "fl_neg PInf = NInf"
| "fl_neg NInf = PInf"

fun fl_add :: "fl \<Rightarrow> fl \<Rightarrow> fl" where
  "fl_add NaN _ = NaN"
| "fl_add _ NaN = NaN"
| "fl_add (Fin x) (Fin y) = Fin (x + y)"
| "fl_add (Fin _) PInf = PInf"
| "fl_add (Fin _) NInf = NInf"
| "fl_add PInf NInf = NaN"
| "fl_add PInf _ = PInf"
| "fl_add NInf PInf = NaN"
| "fl_add NInf _ = NInf"

definition fl_sub :: "fl \<Rightarrow> fl \<Rightarrow> fl" where
  "fl_sub a b = fl_add a (fl_neg b)"

fun fl_div :: "fl \<Rightarrow> fl \<Rightarrow> fl" where
  "fl_div NaN _ = NaN"
| "fl_div _ NaN = NaN"
| "fl_div (Fin x) (Fin y) =
     (if y = 0 then (if x = 0 then NaN else if 0 < x then PInf else NInf)
      else Fin (x / y))"
| "fl_div (Fin _) PInf = Fin 0"
| "fl_div (Fin _) NInf = Fin 0"
| "fl_div PInf (Fin y) = (if 0 \<le> y then PInf else NInf)"
| "fl_div NInf (Fin y) = (if 0 \<le> y then NInf else PInf)"
| "fl_div PInf _ = NaN"
| "fl_div NInf _ = NaN"

text \<open>\<open>np.finfo(float).eps\<close>, the distance from 1.0 to the next float64.\<close>

definition float_eps :: real where
  "float_eps = 1 / 2 ^ 52"

subsection \<open>Errors\<close>

datatype error = ValueError

definition bind_err :: "error + 'a \<Rightarrow> ('a \<Rightarrow> error + 'b) \<Rightarrow> error + 'b" where
  "bind_err r f = (case r of Inl e \<Rightarrow> Inl e | Inr v \<Rightarrow> f v)"

subsection \<open>The parameter normalizer\<close>

text \<open>Python's \<open>int(x)\<close> on a float truncates towards zero.\<close>

definition py_int :: "real \<Rightarrow> int" where
  "py_int x = (if 0 \<le> x then \<lfloor>x\<rfloor> else \<lceil>x\<rceil>)"

definition apply_units_and_corrections ::
  "real \<Rightarrow> real \<Rightarrow> real \<Rightarrow> real \<Rightarrow> real \<times> int \<times> int \<times> int" where
  "apply_units_and_corrections fps tau_0 tau_1 tau_2 =
     (let tau_0' = fps * tau_0;
          tau_1' = py_int (fps * tau_1);
          tau_2' = py_int (fps * tau_2);
          min_per = max 1 (py_int (fps / 10))
      in (tau_0', tau_1', tau_2', min_per))"

subsection \<open>numpy arrays\<close>

record mat =
  nrows :: nat
  ncols :: nat
  elems :: "fl list list"

text \<open>A two-dimensional array holds \<open>nrows\<close> rows of \<open>ncols\<close> entries each.\<close>

definition wf_mat :: "mat \<Rightarrow> bool" where
  "wf_mat m \<longleftrightarrow> length (elems m) = nrows m \<and> list_all (\<lambda>r. length r = ncols m) (elems m)"

datatype ndarray = A1 "fl list" | A2 mat

fun wf_array :: "ndarray \<Rightarrow> bool" where
  "wf_array (A1 xs) = True"
| "wf_array (A2 m) = wf_mat m"

fun ndim :: "ndarray \<Rightarrow> nat" where
  "ndim (A1 xs) = 1"
| "ndim (A2 m) = 2"

fun shape :: "ndarray \<Rightarrow> nat list" where
  "shape (A1 xs) = [length xs]"
| "shape (A2 m) = [nrows m, ncols m]"

definition mat_map :: "(fl \<Rightarrow> fl) \<Rightarrow> mat \<Rightarrow> mat" where
  "mat_map f m = m\<lparr>elems := map (map f) (elems m)\<rparr>"

fun np_map :: "(fl \<Rightarrow> fl) \<Rightarrow> ndarray \<Rightarrow> ndarray" where
  "np_map f (A1 xs) = A1 (map f xs)"
| "np_map f (A2 m) = A2 (mat_map f m)"

text \<open>Unary minus, \<open>-data\<close>: a new array.\<close>

definition np_neg :: "ndarray \<Rightarrow> ndarray" where
  "np_neg a = np_map fl_neg a"

text \<open>An array plus a Python float, \<open>a + c\<close>.\<close>

definition np_add_scalar :: "ndarray \<Rightarrow> real \<Rightarrow> ndarray" where
  "np_add_scalar a c = np_map (\<lambda>x. fl_add x (Fin c)) a"

text \<open>\<open>a.T\<close>: a one-dimensional array is its own transpose.\<close>

definition mat_T :: "mat \<Rightarrow> mat" where
  "mat_T m = \<lparr>nrows = ncols m, ncols = nrows m,
              elems = map (\<lambda>j. map (\<lambda>r. r ! j) (elems m)) [0..<ncols m]\<rparr>"

fun np_T :: "ndarray \<Rightarrow> ndarray" where
  "np_T (A1 xs) = A1 xs"
| "np_T (A2 m) = A2 (mat_T m)"

text \<open>
  Broadcasting of a binary operation. A one-dimensional array of length \<open>n\<close> is first
  seen as of shape \<open>(1, n)\<close>; two extents are compatible when they are equal or one of
  them is 1, and the operands are stretched along the extents that are 1. Incompatible
  shapes raise \<open>ValueError\<close>.
\<close>

fun as_2d :: "ndarray \<Rightarrow> mat" where
  "as_2d (A1 xs) = \<lparr>nrows = 1, ncols = length xs, elems = [xs]\<rparr>"
| "as_2d (A2 m) = m"

definition bdim :: "nat \<Rightarrow> nat \<Rightarrow> nat option" where
  "bdim d1 d2 = (if d1 = 1 then Some d2 else if d2 = 1 \<or> d1 = d2 then Some d1 else None)"

definition bidx :: "nat \<Rightarrow> nat \<Rightarrow> nat" where
  "bidx d i = (if d = 1 then 0 else i)"

definition mat_binop :: "(fl \<Rightarrow> fl \<Rightarrow> fl) \<Rightarrow> mat \<Rightarrow> mat \<Rightarrow> error + mat" where
  "mat_binop f a b =
     (case (bdim (nrows a) (nrows b), bdim (ncols a) (ncols b)) of
        (Some r, Some c) \<Rightarrow>
          Inr \<lparr>nrows = r, ncols = c,
               elems = map (\<lambda>i. map (\<lambda>j. f (elems a ! bidx (nrows a) i ! bidx (ncols a) j)
                                            (elems b ! bidx (nrows b) i ! bidx (ncols b) j))
                                 [0..<c]) [0..<r]\<rparr>
      | _ \<Rightarrow> Inl ValueError)"

definition np_binop :: "(fl \<Rightarrow> fl \<Rightarrow> fl) \<Rightarrow> ndarray \<Rightarrow> ndarray \<Rightarrow> error + ndarray" where
  "np_binop f a b =
     (case mat_binop f (as_2d a) (as_2d b) of
        Inl e \<Rightarrow> Inl e
      | Inr m \<Rightarrow> Inr (if ndim a = 1 \<and> ndim b = 1 then A1 (concat (elems m)) else A2 m))"

text \<open>\<open>a.ravel()\<close> lists the entries row by row; \<open>np.atleast_2d\<close> turns a
  one-dimensional array into a single row.\<close>

fun ravel :: "ndarray \<Rightarrow> ndarray" where
  "ravel (A1 xs) = A1 xs"
| "ravel (A2 m) = A1 (concat (elems m))"

fun atleast_2d :: "ndarray \<Rightarrow> ndarray" where
  "atleast_2d (A1 xs) = A2 \<lparr>nrows = 1, ncols = length xs, elems = [xs]\<rparr>"
| "atleast_2d (A2 m) = A2 m"

subsection \<open>pandas data frames\<close>

record dataframe =
  df_len :: nat
  df_cols :: "fl list list"

definition wf_df :: "dataframe \<Rightarrow> bool" where
  "wf_df d \<longleftrightarrow> list_all (\<lambda>c. length c = df_len d) (df_cols d)"

text \<open>\<open>pd.DataFrame(a)\<close>: a one-dimensional array becomes the single column of the
  frame, a two-dimensional one gives one column of the frame per column of the array.\<close>

fun DataFrame :: "ndarray \<Rightarrow> dataframe" where
  "DataFrame (A1 xs) = \<lparr>df_len = length xs, df_cols = [xs]\<rparr>"
| "DataFrame (A2 m) =
     \<lparr>df_len = nrows m, df_cols = map (\<lambda>j. map (\<lambda>r. r ! j) (elems m)) [0..<ncols m]\<rparr>"

definition to_numpy :: "dataframe \<Rightarrow> ndarray" where
  "to_numpy d =
     A2 \<lparr>nrows = df_len d, ncols = length (df_cols d),
         elems = map (\<lambda>i. map (\<lambda>c. c ! i) (df_cols d)) [0..<df_len d]\<rparr>"

text \<open>Operations that act on every column on its own.\<close>

definition df_map_cols :: "(fl list \<Rightarrow> fl list) \<Rightarrow> dataframe \<Rightarrow> dataframe" where
  "df_map_cols f d = d\<lparr>df_cols := map f (df_cols d)\<rparr>"

definition df_add_scalar :: "dataframe \<Rightarrow> real \<Rightarrow> dataframe" where
  "df_add_scalar d c = df_map_cols (map (\<lambda>x. fl_add x (Fin c))) d"

text \<open>\<open>fillna(0)\<close> replaces NaN, and nothing else, by 0.\<close>

fun fillna0 :: "fl \<Rightarrow> fl" where
  "fillna0 NaN = Fin 0"
| "fillna0 x = x"

definition fillna :: "dataframe \<Rightarrow> dataframe" where
  "fillna d = df_map_cols (map fillna0) d"

subsection \<open>pandas window operations\<close>

text \<open>
  Before a window function runs, pandas replaces the infinities of a column by NaN.
  The observations of a window are its entries that are not NaN.
\<close>

fun prep_value :: "fl \<Rightarrow> fl" where
  "prep_value PInf = NaN"
| "prep_value NInf = NaN"
| "prep_value x = x"

fun fin_vals :: "fl list \<Rightarrow> real list" where
  "fin_vals [] = []"
| "fin_vals (Fin x # xs) = x # fin_vals xs"
| "fin_vals (_ # xs) = fin_vals xs"

text \<open>The window of length \<open>w\<close> that ends at position \<open>t\<close> (the default, \<open>center=False\<close>):
  positions \<open>t - w + 1\<close> to \<open>t\<close>, cut at the start of the column.\<close>

definition window :: "nat \<Rightarrow> nat \<Rightarrow> 'a list \<Rightarrow> 'a list" where
  "window w t xs = take (min w (Suc t)) (drop (Suc t - w) xs)"

text \<open>
  \<open>rolling(window=w, win_type="boxcar").mean()\<close> on one column: the weights of a boxcar
  window are all 1, and \<open>min_periods\<close> defaults to the window length. A position with
  fewer observations than that (and than 1) is NaN; the others hold the weighted sum
  over the total weight of the observations.
\<close>

definition roll_weighted_mean :: "nat \<Rightarrow> fl list \<Rightarrow> fl list" where
  "roll_weighted_mean w xs =
     map (\<lambda>t. let obs = fin_vals (window w t (map prep_value xs))
              in if length obs < max w 1 then NaN
                 else Fin (sum_list obs / real (length obs)))
         [0..<length xs]"

text \<open>\<open>rolling(window=w, min_periods=minp).min()\<close> on one column.\<close>

definition roll_min :: "nat \<Rightarrow> nat \<Rightarrow> fl list \<Rightarrow> fl list" where
  "roll_min w minp xs =
     map (\<lambda>t. let obs = fin_vals (window w t (map prep_value xs))
              in if obs = [] \<or> length obs < minp then NaN
                 else Fin (min_list obs))
         [0..<length xs]"

text \<open>The checks pandas makes on the arguments of \<open>rolling\<close>.\<close>

definition rolling_boxcar_mean :: "int \<Rightarrow> dataframe \<Rightarrow> error + dataframe" where
  "rolling_boxcar_mean w d =
     (if w < 0 then Inl ValueError
      else Inr (df_map_cols (roll_weighted_mean (nat w)) d))"

definition rolling_min :: "int \<Rightarrow> int \<Rightarrow> dataframe \<Rightarrow> error + dataframe" where
  "rolling_min w min_periods d =
     (if w < 0 \<or> min_periods < 0 \<or> w < min_periods then Inl ValueError
      else Inr (df_map_cols (roll_min (nat w) (nat min_periods)) d))"

text \<open>
  \<open>ewm(halflife=h, min_periods=minp).mean()\<close> on one column, with the defaults
  \<open>adjust=True\<close> and \<open>ignore_na=False\<close>. The smoothing factor is
  \<open>\<alpha> = 1 - exp (- ln 2 / h)\<close>. The loop keeps the current average \<open>weighted\<close> (NaN
  until the first observation), the total weight \<open>old_wt\<close> of the observations behind
  it and the number \<open>nobs\<close> of observations seen; \<open>q\<close> is \<open>1 - \<alpha>\<close>.
\<close>

definition ewm_alpha :: "real \<Rightarrow> real" where
  "ewm_alpha halflife = 1 - exp (- ln 2 / halflife)"

fun obs_of :: "fl \<Rightarrow> real option" where
  "obs_of (Fin x) = Some x"
| "obs_of _ = None"

fun fl_of :: "real option \<Rightarrow> fl" where
  "fl_of (Some x) = Fin x"
| "fl_of None = NaN"

type_synonym ewm_state = "real option \<times> real \<times> nat"

fun ewm_step :: "real \<Rightarrow> ewm_state \<Rightarrow> real option \<Rightarrow> ewm_state" where
  "ewm_step q (None, old_wt, nobs) None = (None, old_wt, nobs)"
| "ewm_step q (None, old_wt, nobs) (Some cur) = (Some cur, old_wt, Suc nobs)"
| "ewm_step q (Some weighted, old_wt, nobs) None = (Some weighted, old_wt * q, nobs)"
| "ewm_step q (Some weighted, old_wt, nobs) (Some cur) =
     (let old_wt' = old_wt * q;
          weighted' = (if weighted \<noteq> cur
                       then (old_wt' * weighted + 1 * cur) / (old_wt' + 1)
                       else weighted)
      in (Some weighted', old_wt' + 1, Suc nobs))"

fun ewm_emit :: "nat \<Rightarrow> ewm_state \<Rightarrow> real option" where
  "ewm_emit minp (weighted, old_wt, nobs) = (if minp \<le> nobs then weighted else None)"

fun ewm_loop :: "real \<Rightarrow> nat \<Rightarrow> ewm_state \<Rightarrow> real option list \<Rightarrow> real option list" where
  "ewm_loop q minp s [] = []"
| "ewm_loop q minp s (cur # rest) =
     (let s' = ewm_step q s cur in ewm_emit minp s' # ewm_loop q minp s' rest)"

definition ewm_init :: "real option \<Rightarrow> ewm_state" where
  "ewm_init x = (x, 1, (if x = None then 0 else 1))"

definition ewm_mean_obs :: "real \<Rightarrow> nat \<Rightarrow> real option list \<Rightarrow> real option list" where
  "ewm_mean_obs q minp xs =
     (case xs of
        [] \<Rightarrow> []
      | x # rest \<Rightarrow> ewm_emit minp (ewm_init x) # ewm_loop q minp (ewm_init x) rest)"

definition ewm_mean_col :: "real \<Rightarrow> nat \<Rightarrow> fl list \<Rightarrow> fl list" where
  "ewm_mean_col halflife minp xs =
     map fl_of (ewm_mean_obs (1 - ewm_alpha halflife) (max minp 1)
                  (map (obs_of \<circ> prep_value) xs))"

definition ewm_mean :: "real \<Rightarrow> int \<Rightarrow> dataframe \<Rightarrow> error + dataframe" where
  "ewm_mean halflife min_periods d =
     (if halflife \<le> 0 then Inl ValueError
      else Inr (df_map_cols (ewm_mean_col halflife (nat min_periods)) d))"

subsection \<open>The module\<close>

definition calc_f0 :: "ndarray \<Rightarrow> int \<Rightarrow> int \<Rightarrow> int \<Rightarrow> error + dataframe" where
  "calc_f0 data tau_1 tau_2 min_per =
     (let data' = DataFrame (np_T data)
      in bind_err (rolling_boxcar_mean tau_1 data') (\<lambda>avg.
         bind_err (rolling_min tau_2 min_per avg) (\<lambda>lowest.
         Inr (df_add_scalar lowest float_eps))))"

definition calc_dff_unfiltered ::
  "dataframe \<Rightarrow> ndarray \<Rightarrow> bool \<Rightarrow> real \<Rightarrow> error + dataframe" where
  "calc_dff_unfiltered f0 data low_background_flag low_background_offset_value =
     (let f0' = to_numpy f0
      in bind_err
           (if low_background_flag
            then bind_err (np_binop fl_sub
                             (np_add_scalar (np_T data) (2 * low_background_offset_value)) f0')
                   (\<lambda>num. np_binop fl_div num (np_add_scalar f0' low_background_offset_value))
            else bind_err (np_binop fl_sub (np_T data) f0')
                   (\<lambda>num. np_binop fl_div num f0'))
           (\<lambda>raw_calc. Inr (fillna (DataFrame raw_calc))))"

definition filter_dff :: "dataframe \<Rightarrow> real \<Rightarrow> int \<Rightarrow> error + dataframe" where
  "filter_dff unfiltered_dff tau_0 min_per =
     bind_err (ewm_mean tau_0 min_per unfiltered_dff) (\<lambda>avg. Inr (fillna avg))"

definition dff_calc ::
  "ndarray \<Rightarrow> real \<Rightarrow> real \<Rightarrow> real \<Rightarrow> real \<Rightarrow> bool \<Rightarrow> bool \<Rightarrow> error + ndarray" where
  "dff_calc data fps tau_0 tau_1 tau_2 invert low_background_flag =
     (let low_background_offset_value = 5 / 100;
          (tau_0', tau_1', tau_2', min_per) = apply_units_and_corrections fps tau_0 tau_1 tau_2;
          data' = (if invert then np_neg data else data)
      in bind_err (calc_f0 data' tau_1' tau_2' min_per) (\<lambda>f0.
         bind_err (calc_dff_unfiltered f0 data' low_background_flag low_background_offset_value)
           (\<lambda>unfiltered_dff.
         bind_err (filter_dff unfiltered_dff tau_0' min_per) (\<lambda>dff.
         if ndim data' = 1 then Inr (atleast_2d (ravel (to_numpy dff)))
         else Inr (np_T (to_numpy dff))))))"

subsection \<open>One channel at a time\<close>

text \<open>
  The composition of the column operations that \<open>dff_calc\<close> applies; the lemmas below
  show that a two-dimensional input is processed channel by channel in this way.
  \<open>mat_of_fun\<close> builds an array from its entries.
\<close>

definition ratio_elem :: "bool \<Rightarrow> real \<Rightarrow> fl \<Rightarrow> fl \<Rightarrow> fl" where
  "ratio_elem flag off x f =
     (if flag then fl_div (fl_sub (fl_add x (Fin (2 * off))) f) (fl_add f (Fin off))
      else fl_div (fl_sub x f) f)"

definition f0_col :: "nat \<Rightarrow> nat \<Rightarrow> nat \<Rightarrow> fl list \<Rightarrow> fl list" where
  "f0_col w1 w2 minp xs =
     map (\<lambda>x. fl_add x (Fin float_eps)) (roll_min w2 minp (roll_weighted_mean w1 xs))"

definition unfiltered_col :: "bool \<Rightarrow> real \<Rightarrow> fl list \<Rightarrow> fl list \<Rightarrow> fl list" where
  "unfiltered_col flag off xs fs = map (\<lambda>(x, f). fillna0 (ratio_elem flag off x f)) (zip xs fs)"

definition mat_of_fun :: "nat \<Rightarrow> nat \<Rightarrow> (nat \<Rightarrow> nat \<Rightarrow> fl) \<Rightarrow> mat" where
  "mat_of_fun r c g = \<lparr>nrows = r, ncols = c, elems = map (\<lambda>i. map (\<lambda>j. g i j) [0..<c]) [0..<r]\<rparr>"

definition channel_dff :: "real \<Rightarrow> nat \<Rightarrow> nat \<Rightarrow> nat \<Rightarrow> bool \<Rightarrow> fl list \<Rightarrow> fl list" where
  "channel_dff halflife w1 w2 minp flag xs =
     map fillna0 (ewm_mean_col halflife minp
       (unfiltered_col flag (5 / 100) xs (f0_col w1 w2 minp xs)))"

definition params_ok :: "real \<Rightarrow> real \<Rightarrow> real \<Rightarrow> real \<Rightarrow> bool" where
  "params_ok fps tau_0 tau_1 tau_2 \<longleftrightarrow>
     (case apply_units_and_corrections fps tau_0 tau_1 tau_2 of
        (halflife, w1, w2, min_per) \<Rightarrow> 0 \<le> w1 \<and> 0 \<le> w2 \<and> min_per \<le> w2 \<and> 0 < halflife)"

definition channel_of ::
  "real \<Rightarrow> real \<Rightarrow> real \<Rightarrow> real \<Rightarrow> bool \<Rightarrow> bool \<Rightarrow> fl list \<Rightarrow> fl list" where
  "channel_of fps tau_0 tau_1 tau_2 invert flag xs =
     (case apply_units_and_corrections fps tau_0 tau_1 tau_2 of
        (halflife, w1, w2, min_per) \<Rightarrow>
          channel_dff halflife (nat w1) (nat w2) (nat min_per) flag
            (if invert then map fl_neg xs else xs))"

text \<open>The single-row array holding row \<open>i\<close> of a two-dimensional array, \<open>a[i:i+1]\<close>.\<close>

definition mat_row :: "nat \<Rightarrow> mat \<Rightarrow> mat" where
  "mat_row i m = \<lparr>nrows = 1, ncols = ncols m, elems = [elems m ! i]\<rparr>"

subsection \<open>Predicates on the entries of arrays and frames\<close>

fun nonneg_fl :: "fl \<Rightarrow> bool" where
  "nonneg_fl (Fin r) = (0 \<le> r)"
| "nonneg_fl _ = True"

fun pos_or_nan :: "fl \<Rightarrow> bool" where
  "pos_or_nan (Fin r) = (0 < r)"
| "pos_or_nan NaN = True"
| "pos_or_nan _ = False"

fun array_all :: "(fl \<Rightarrow> bool) \<Rightarrow> ndarray \<Rightarrow> bool" where
  "array_all P (A1 xs) = list_all P xs"
| "array_all P (A2 m) = list_all (list_all P) (elems m)"

definition df_all :: "(fl \<Rightarrow> bool) \<Rightarrow> dataframe \<Rightarrow> bool" where
  "df_all P d = list_all (list_all P) (df_cols d)"

text \<open>
  The first stage as the specification words it, for comparison with the code: a window
  of length \<open>w\<close> centered on the timepoint (what pandas computes with \<open>center=True\<close>:
  the window ends \<open>(w - 1) div 2\<close> positions after \<open>t\<close>), NaN where the window is not
  filled with \<open>w\<close> samples.
\<close>

definition spec_centered_boxcar_mean :: "nat \<Rightarrow> fl list \<Rightarrow> fl list" where
  "spec_centered_boxcar_mean w xs =
     map (\<lambda>t. let e = t + (w - 1) div 2;
                  obs = fin_vals (window w e (map prep_value xs))
              in if length xs \<le> e \<or> length obs < max w 1 then NaN
                 else Fin (sum_list obs / real (length obs)))
         [0..<length xs]"

text \<open>
  A timepoint lies in the warm-up of the rolling operations when the windows of the
  baseline cannot hold enough samples yet: the boxcar window needs \<open>tau_1\<close> samples and
  the minimum needs \<open>min_per\<close> boxcar means, that is \<open>tau_1 + min_per - 1\<close> samples up to
  and including the timepoint (and a boxcar window of length 0 is never filled).
\<close>

definition in_warm_up :: "real \<Rightarrow> real \<Rightarrow> real \<Rightarrow> real \<Rightarrow> nat \<Rightarrow> bool" where
  "in_warm_up fps tau_0 tau_1 tau_2 t \<longleftrightarrow>
     (case apply_units_and_corrections fps tau_0 tau_1 tau_2 of
        (halflife, w1, w2, min_per) \<Rightarrow> w1 = 0 \<or> int t + 2 < w1 + min_per)"

subsection \<open>The pipeline on a store\<close>

text \<open>
  To state what \<open>dff_calc\<close> does to the caller's array, the same pipeline is written
  over a store of buffers. A cell of the store holds the buffer of a numpy array or the
  block of a data frame. An array object is a view of a cell, transposed or not; a frame
  object wraps a cell. Following numpy and pandas, \<open>a.T\<close>, \<open>pd.DataFrame(a)\<close> and
  \<open>df.to_numpy()\<close> make a new object over the same cell, while arithmetic, the window
  operations and \<open>fillna\<close> (called without \<open>inplace\<close>) put their result in a fresh cell.
  The code contains no assignment into an array or a frame, so no operation below
  writes to an existing cell.
\<close>

datatype cell = ArrayBuf ndarray | FrameBlock dataframe

record heap =
  cells :: "nat \<Rightarrow> cell option"
  next_addr :: nat

datatype aref = ARef nat bool

datatype fref = FRef nat bool

fun read_arr :: "heap \<Rightarrow> aref \<Rightarrow> ndarray" where
  "read_arr h (ARef a transposed) =
     (let v = (case cells h a of
                 Some (ArrayBuf v) \<Rightarrow> v
               | Some (FrameBlock d) \<Rightarrow> to_numpy d
               | None \<Rightarrow> A1 [])
      in if transposed then np_T v else v)"

fun read_df :: "heap \<Rightarrow> fref \<Rightarrow> dataframe" where
  "read_df h (FRef a transposed) =
     (case cells h a of
        Some (ArrayBuf v) \<Rightarrow> DataFrame (if transposed then np_T v else v)
      | Some (FrameBlock d) \<Rightarrow> d
      | None \<Rightarrow> \<lparr>df_len = 0, df_cols = []\<rparr>)"

fun aref_T :: "aref \<Rightarrow> aref" where
  "aref_T (ARef a transposed) = ARef a (\<not> transposed)"

fun frame_of :: "aref \<Rightarrow> fref" where
  "frame_of (ARef a transposed) = FRef a transposed"

fun numpy_of :: "fref \<Rightarrow> aref" where
  "numpy_of (FRef a transposed) = ARef a transposed"

definition alloc :: "heap \<Rightarrow> cell \<Rightarrow> heap" where
  "alloc h c = h\<lparr>cells := (cells h)(next_addr h \<mapsto> c), next_addr := Suc (next_addr h)\<rparr>"

type_synonym 'a st = "heap \<Rightarrow> (error + 'a) \<times> heap"

definition return_st :: "'a \<Rightarrow> 'a st" where
  "return_st x = (\<lambda>h. (Inr x, h))"

definition bind_st :: "'a st \<Rightarrow> ('a \<Rightarrow> 'b st) \<Rightarrow> 'b st" where
  "bind_st m f = (\<lambda>h. case m h of (Inl e, h') \<Rightarrow> (Inl e, h') | (Inr x, h') \<Rightarrow> f x h')"

definition get_array :: "aref \<Rightarrow> ndarray st" where
  "get_array r = (\<lambda>h. (Inr (read_arr h r), h))"

text \<open>An operation that reads a frame and returns a new frame, or raises.\<close>

definition df_op :: "(dataframe \<Rightarrow> error + dataframe) \<Rightarrow> fref \<Rightarrow> fref st" where
  "df_op f r = (\<lambda>h. case f (read_df h r) of
                       Inl e \<Rightarrow> (Inl e, h)
                     | Inr d \<Rightarrow> (Inr (FRef (next_addr h) False), alloc h (FrameBlock d)))"

text \<open>Operations that read one or two arrays and return a new array, or raise.\<close>

definition arr_op :: "(ndarray \<Rightarrow> error + ndarray) \<Rightarrow> aref \<Rightarrow> aref st" where
  "arr_op f r = (\<lambda>h. case f (read_arr h r) of
                        Inl e \<Rightarrow> (Inl e, h)
                      | Inr v \<Rightarrow> (Inr (ARef (next_addr h) False), alloc h (ArrayBuf v)))"

definition arr_binop :: "(ndarray \<Rightarrow> ndarray \<Rightarrow> error + ndarray) \<Rightarrow> aref \<Rightarrow> aref \<Rightarrow> aref st" where
  "arr_binop f r1 r2 = (\<lambda>h. case f (read_arr h r1) (read_arr h r2) of
                        Inl e \<Rightarrow> (Inl e, h)
                      | Inr v \<Rightarrow> (Inr (ARef (next_addr h) False), alloc h (ArrayBuf v)))"

definition calc_f0_st :: "aref \<Rightarrow> int \<Rightarrow> int \<Rightarrow> int \<Rightarrow> fref st" where
  "calc_f0_st data tau_1 tau_2 min_per =
     (let data' = frame_of (aref_T data)
      in bind_st (df_op (rolling_boxcar_mean tau_1) data') (\<lambda>avg.
         bind_st (df_op (rolling_min tau_2 min_per) avg) (\<lambda>lowest.
         df_op (\<lambda>d. Inr (df_add_scalar d float_eps)) lowest)))"

definition calc_dff_unfiltered_st :: "fref \<Rightarrow> aref \<Rightarrow> bool \<Rightarrow> real \<Rightarrow> fref st" where
  "calc_dff_unfiltered_st f0 data low_background_flag low_background_offset_value =
     (let f0' = numpy_of f0
      in bind_st
           (if low_background_flag
            then bind_st (arr_op (\<lambda>a. Inr (np_add_scalar a (2 * low_background_offset_value)))
                            (aref_T data)) (\<lambda>shifted.
                 bind_st (arr_binop (np_binop fl_sub) shifted f0') (\<lambda>num.
                 bind_st (arr_op (\<lambda>a. Inr (np_add_scalar a low_background_offset_value)) f0')
                   (\<lambda>den. arr_binop (np_binop fl_div) num den)))
            else bind_st (arr_binop (np_binop fl_sub) (aref_T data) f0')
                   (\<lambda>num. arr_binop (np_binop fl_div) num f0'))
           (\<lambda>raw_calc. df_op (\<lambda>d. Inr (fillna d)) (frame_of raw_calc)))"

definition filter_dff_st :: "fref \<Rightarrow> real \<Rightarrow> int \<Rightarrow> fref st" where
  "filter_dff_st unfiltered_dff tau_0 min_per =
     bind_st (df_op (ewm_mean tau_0 min_per) unfiltered_dff)
       (\<lambda>avg. df_op (\<lambda>d. Inr (fillna d)) avg)"

definition dff_calc_st ::
  "aref \<Rightarrow> real \<Rightarrow> real \<Rightarrow> real \<Rightarrow> real \<Rightarrow> bool \<Rightarrow> bool \<Rightarrow> aref st" where
  "dff_calc_st data fps tau_0 tau_1 tau_2 invert low_background_flag =
     (let low_background_offset_value = 5 / 100;
          (tau_0', tau_1', tau_2', min_per) = apply_units_and_corrections fps tau_0 tau_1 tau_2
      in bind_st (if invert then arr_op (\<lambda>a. Inr (np_neg a)) data else return_st data) (\<lambda>data'.
         bind_st (calc_f0_st data' tau_1' tau_2' min_per) (\<lambda>f0.
         bind_st (calc_dff_unfiltered_st f0 data' low_background_flag low_background_offset_value)
           (\<lambda>unfiltered_dff.
         bind_st (filter_dff_st unfiltered_dff tau_0' min_per) (\<lambda>dff.
         bind_st (get_array data') (\<lambda>d.
         if ndim d = 1 then arr_op (\<lambda>a. Inr (atleast_2d (ravel a))) (numpy_of dff)
         else return_st (aref_T (numpy_of dff))))))))"

text \<open>A store extends another when it keeps every cell allocated in it.\<close>

definition heap_ext :: "heap \<Rightarrow> heap \<Rightarrow> bool" where
  "heap_ext h h' \<longleftrightarrow>
     next_addr h \<le> next_addr h' \<and> (\<forall>a < next_addr h. cells h' a = cells h a)"

definition preserves :: "'a st \<Rightarrow> bool" where
  "preserves m \<longleftrightarrow> (\<forall>h. heap_ext h (snd (m h)))"

text \<open>The caller passes an array that owns its buffer; the frames that the pipeline
  builds own their block.\<close>

fun base_array :: "heap \<Rightarrow> aref \<Rightarrow> bool" where
  "base_array h (ARef a transposed) \<longleftrightarrow>
     \<not> transposed \<and> a < next_addr h \<and>
     (case cells h a of Some (ArrayBuf v) \<Rightarrow> True | _ \<Rightarrow> False)"

fun own_frame :: "heap \<Rightarrow> fref \<Rightarrow> bool" where
  "own_frame h (FRef a transposed) \<longleftrightarrow>
     \<not> transposed \<and> a < next_addr h \<and> (case cells h a of Some (FrameBlock d) \<Rightarrow> True | _ \<Rightarrow> False)"

text \<open>
  A computation on the store refines a result of the value-level model when it raises
  exactly when the model does and otherwise returns an object that stands for the
  model's value in the new store.
\<close>

definition refines :: "heap \<Rightarrow> 'a st \<Rightarrow> error + 'b \<Rightarrow> (heap \<Rightarrow> 'a \<Rightarrow> 'b \<Rightarrow> bool) \<Rightarrow> bool" where
  "refines h m res R \<longleftrightarrow>
     (case m h of
        (Inl e, h') \<Rightarrow> res = Inl e
      | (Inr x, h') \<Rightarrow> (case res of Inl e \<Rightarrow> False | Inr y \<Rightarrow> R h' x y))"

definition frame_rel :: "heap \<Rightarrow> fref \<Rightarrow> dataframe \<Rightarrow> bool" where
  "frame_rel h r d \<longleftrightarrow> own_frame h r \<and> read_df h r = d"

definition array_rel :: "heap \<Rightarrow> aref \<Rightarrow> ndarray \<Rightarrow> bool" where
  "array_rel h r v \<longleftrightarrow> base_array h r \<and> read_arr h r = v"

definition view_rel :: "heap \<Rightarrow> aref \<Rightarrow> ndarray \<Rightarrow> bool" where
  "view_rel h r v \<longleftrightarrow> read_arr h r = v"

section \<open>Properties\<close>

subsection \<open>Arrays, frames and the shape of the pipeline\<close>

lemma py_int_nonneg: "0 \<le> x \<Longrightarrow> py_int x = \<lfloor>x\<rfloor>"
  by (simp add: py_int_def)

lemma max_one_py_int: "max 1 (py_int x) = max 1 \<lfloor>x\<rfloor>"
proof (cases "0 \<le> x")
  case True
  then show ?thesis by (simp add: py_int_def)
next
  case False
  then have "x < 0" by simp
  then have "\<lceil>x\<rceil> \<le> 0" and "\<lfloor>x\<rfloor> \<le> 0"
    by simp_all
  with False show ?thesis by (simp add: py_int_def max_def)
qed

lemma length_roll_weighted_mean [simp]: "length (roll_weighted_mean w xs) = length xs"
  by (simp add: roll_weighted_mean_def)

lemma length_roll_min [simp]: "length (roll_min w minp xs) = length xs"
  by (simp add: roll_min_def)

lemma length_f0_col [simp]: "length (f0_col w1 w2 minp xs) = length xs"
  by (simp add: f0_col_def)

lemma length_ewm_loop [simp]: "length (ewm_loop q minp s xs) = length xs"
  by (induction xs arbitrary: s) (simp_all add: Let_def)

lemma length_ewm_mean_obs [simp]: "length (ewm_mean_obs q minp xs) = length xs"
  by (simp add: ewm_mean_obs_def split: list.splits)

lemma length_ewm_mean_col [simp]: "length (ewm_mean_col h minp xs) = length xs"
  by (simp add: ewm_mean_col_def)

lemma wf_mat_row: "wf_mat m \<Longrightarrow> r \<in> set (elems m) \<Longrightarrow> length r = ncols m"
  by (simp add: wf_mat_def list_all_iff)

lemma cols_of_rows:
  assumes "\<forall>r \<in> set rs. length r = n"
  shows "map (\<lambda>j. map (\<lambda>i. map (\<lambda>r. r ! i) rs ! j) [0..<n]) [0..<length rs] = rs"
proof (rule nth_equalityI)
  show "length (map (\<lambda>j. map (\<lambda>i. map (\<lambda>r. r ! i) rs ! j) [0..<n]) [0..<length rs]) = length rs"
    by simp
next
  fix j assume "j < length (map (\<lambda>j. map (\<lambda>i. map (\<lambda>r. r ! i) rs ! j) [0..<n]) [0..<length rs])"
  then have j: "j < length rs" by simp
  then have len: "length (rs ! j) = n" using assms by simp
  have "map (\<lambda>i. map (\<lambda>r. r ! i) rs ! j) [0..<n] = map (\<lambda>i. rs ! j ! i) [0..<n]"
    using j by simp
  also have "\<dots> = rs ! j" using map_nth [of "rs ! j"] len by simp
  finally show "map (\<lambda>j. map (\<lambda>i. map (\<lambda>r. r ! i) rs ! j) [0..<n]) [0..<length rs] ! j = rs ! j"
    using j by simp
qed

lemma DataFrame_T:
  assumes "wf_mat m"
  shows "DataFrame (np_T (A2 m)) = \<lparr>df_len = ncols m, df_cols = elems m\<rparr>"
proof -
  have rows: "\<forall>r \<in> set (elems m). length r = ncols m" and len: "length (elems m) = nrows m"
    using assms by (simp_all add: wf_mat_def list_all_iff)
  have "map (\<lambda>j. map (\<lambda>r. r ! j) (map (\<lambda>j. map (\<lambda>r. r ! j) (elems m)) [0..<ncols m])) [0..<nrows m]
        = map (\<lambda>j. map (\<lambda>i. map (\<lambda>r. r ! i) (elems m) ! j) [0..<ncols m]) [0..<length (elems m)]"
    using len by simp
  also have "\<dots> = elems m" by (rule cols_of_rows [OF rows])
  finally show ?thesis by (simp add: mat_T_def)
qed

lemma np_T_to_numpy:
  assumes "wf_df d"
  shows "np_T (to_numpy d) = A2 \<lparr>nrows = length (df_cols d), ncols = df_len d, elems = df_cols d\<rparr>"
proof -
  have cols: "\<forall>c \<in> set (df_cols d). length c = df_len d"
    using assms by (simp add: wf_df_def list_all_iff)
  have "map (\<lambda>j. map (\<lambda>r. r ! j) (map (\<lambda>i. map (\<lambda>c. c ! i) (df_cols d)) [0..<df_len d])) [0..<length (df_cols d)]
        = map (\<lambda>j. map (\<lambda>i. map (\<lambda>c. c ! i) (df_cols d) ! j) [0..<df_len d]) [0..<length (df_cols d)]"
    by simp
  also have "\<dots> = df_cols d" by (rule cols_of_rows [OF cols])
  finally show ?thesis by (simp add: to_numpy_def mat_T_def)
qed

lemma calc_f0_2d:
  assumes "wf_mat m"
  shows "calc_f0 (A2 m) t1 t2 mp =
           (if 0 \<le> t1 \<and> 0 \<le> t2 \<and> 0 \<le> mp \<and> mp \<le> t2
            then Inr \<lparr>df_len = ncols m, df_cols = map (f0_col (nat t1) (nat t2) (nat mp)) (elems m)\<rparr>
            else Inl ValueError)"
  unfolding calc_f0_def Let_def DataFrame_T [OF assms]
  by (auto simp: bind_err_def rolling_boxcar_mean_def rolling_min_def df_map_cols_def
      df_add_scalar_def f0_col_def)

lemma mat_of_fun_sel [simp]:
  "nrows (mat_of_fun r c g) = r" "ncols (mat_of_fun r c g) = c"
  by (simp_all add: mat_of_fun_def)

lemma mat_of_fun_nth [simp]:
  "i < r \<Longrightarrow> j < c \<Longrightarrow> elems (mat_of_fun r c g) ! i ! j = g i j"
  by (simp add: mat_of_fun_def)

lemma mat_of_fun_cong:
  "(\<And>i j. i < r \<Longrightarrow> j < c \<Longrightarrow> g i j = h i j) \<Longrightarrow> mat_of_fun r c g = mat_of_fun r c h"
  by (simp add: mat_of_fun_def)

lemma bidx_less: "bdim d1 d2 = Some d \<Longrightarrow> i < d \<Longrightarrow> bidx d1 i < d1 \<and> bidx d2 i < d2"
  by (auto simp: bdim_def bidx_def split: if_splits)

lemma mat_binop_of_fun:
  assumes "bdim r1 r2 = Some r" and "bdim c1 c2 = Some c"
  shows "mat_binop f (mat_of_fun r1 c1 g) (mat_of_fun r2 c2 h) =
           Inr (mat_of_fun r c (\<lambda>i j. f (g (bidx r1 i) (bidx c1 j)) (h (bidx r2 i) (bidx c2 j))))"
proof -
  have "map (\<lambda>i. map (\<lambda>j. f (elems (mat_of_fun r1 c1 g) ! bidx r1 i ! bidx c1 j)
                           (elems (mat_of_fun r2 c2 h) ! bidx r2 i ! bidx c2 j)) [0..<c]) [0..<r]
        = map (\<lambda>i. map (\<lambda>j. f (g (bidx r1 i) (bidx c1 j)) (h (bidx r2 i) (bidx c2 j))) [0..<c]) [0..<r]"
    using bidx_less [OF assms(1)] bidx_less [OF assms(2)] by simp
  then show ?thesis
    using assms by (simp add: mat_binop_def mat_of_fun_def)
qed

lemma mat_T_of_fun:
  assumes "wf_mat m"
  shows "mat_T m = mat_of_fun (ncols m) (nrows m) (\<lambda>i j. elems m ! j ! i)"
proof -
  have len: "length (elems m) = nrows m" using assms by (simp add: wf_mat_def)
  have "\<And>j. map (\<lambda>r. r ! j) (elems m) = map (\<lambda>i. elems m ! i ! j) [0..<nrows m]"
    using len by (auto intro: nth_equalityI)
  then show ?thesis by (simp add: mat_T_def mat_of_fun_def)
qed

lemma to_numpy_of_fun:
  "to_numpy d = A2 (mat_of_fun (df_len d) (length (df_cols d)) (\<lambda>i j. df_cols d ! j ! i))"
proof -
  have "\<And>i. map (\<lambda>c. c ! i) (df_cols d) = map (\<lambda>j. df_cols d ! j ! i) [0..<length (df_cols d)]"
    by (auto intro: nth_equalityI)
  then show ?thesis by (simp add: to_numpy_def mat_of_fun_def)
qed

lemma DataFrame_of_fun:
  "DataFrame (A2 (mat_of_fun r c g)) = \<lparr>df_len = r, df_cols = map (\<lambda>j. map (\<lambda>i. g i j) [0..<r]) [0..<c]\<rparr>"
proof -
  have "\<And>j. j < c \<Longrightarrow> map (\<lambda>row. row ! j) (map (\<lambda>i. map (\<lambda>j. g i j) [0..<c]) [0..<r])
          = map (\<lambda>i. g i j) [0..<r]"
    by simp
  then show ?thesis by (simp add: mat_of_fun_def)
qed

lemma fillna_DataFrame_of_fun:
  "fillna (DataFrame (A2 (mat_of_fun r c g))) =
     \<lparr>df_len = r, df_cols = map (\<lambda>j. map (\<lambda>i. fillna0 (g i j)) [0..<r]) [0..<c]\<rparr>"
  unfolding DataFrame_of_fun by (simp add: fillna_def df_map_cols_def)

lemma mat_map_of_fun: "mat_map f (mat_of_fun r c g) = mat_of_fun r c (\<lambda>i j. f (g i j))"
  by (simp add: mat_map_def mat_of_fun_def)

lemma bdim_same [simp]: "bdim d d = Some d"
  by (simp add: bdim_def)

lemma bidx_same: "i < d \<Longrightarrow> bidx d i = i"
  by (auto simp: bidx_def)

lemma np_binop_same_shape:
  "np_binop f (A2 (mat_of_fun r c g)) (A2 (mat_of_fun r c h)) =
     Inr (A2 (mat_of_fun r c (\<lambda>i j. f (g i j) (h i j))))"
proof -
  have "mat_of_fun r c (\<lambda>i j. f (g (bidx r i) (bidx c j)) (h (bidx r i) (bidx c j)))
        = mat_of_fun r c (\<lambda>i j. f (g i j) (h i j))"
    by (rule mat_of_fun_cong) (simp add: bidx_same)
  then show ?thesis
    by (simp add: np_binop_def mat_binop_of_fun [of r r r c c c])
qed

lemma calc_dff_unfiltered_2d_idx:
  assumes "wf_mat m" and "length F = nrows m"
  shows "calc_dff_unfiltered \<lparr>df_len = ncols m, df_cols = F\<rparr> (A2 m) flag off =
           Inr \<lparr>df_len = ncols m,
                df_cols = map (\<lambda>j. map (\<lambda>i. fillna0 (ratio_elem flag off (elems m ! j ! i) (F ! j ! i)))
                                  [0..<ncols m]) [0..<nrows m]\<rparr>"
  using assms(2)
  by (cases flag)
    (simp_all add: calc_dff_unfiltered_def Let_def to_numpy_of_fun mat_T_of_fun [OF assms(1)]
      np_add_scalar_def mat_map_of_fun np_binop_same_shape bind_err_def
      fillna_DataFrame_of_fun ratio_elem_def del: DataFrame.simps)

lemma map_idx_zip:
  "length xs = n \<Longrightarrow> length ys = n \<Longrightarrow>
     map (\<lambda>i. h (xs ! i) (ys ! i)) [0..<n] = map (\<lambda>(x, y). h x y) (zip xs ys)"
  by (auto intro!: nth_equalityI)

lemma length_unfiltered_col [simp]:
  "length (unfiltered_col flag off xs fs) = min (length xs) (length fs)"
  by (simp add: unfiltered_col_def)

lemma length_channel_dff [simp]: "length (channel_dff h w1 w2 minp flag xs) = length xs"
  by (simp add: channel_dff_def)

lemma calc_dff_unfiltered_2d:
  assumes "wf_mat m" and g: "\<And>r. length (g r) = length r"
  shows "calc_dff_unfiltered \<lparr>df_len = ncols m, df_cols = map g (elems m)\<rparr> (A2 m) flag off =
           Inr \<lparr>df_len = ncols m,
                df_cols = map (\<lambda>r. unfiltered_col flag off r (g r)) (elems m)\<rparr>"
proof -
  have len: "length (elems m) = nrows m" and rows: "\<And>j. j < nrows m \<Longrightarrow> length (elems m ! j) = ncols m"
    using assms(1) by (simp_all add: wf_mat_def list_all_length)
  have "map (\<lambda>j. map (\<lambda>i. fillna0 (ratio_elem flag off (elems m ! j ! i) (map g (elems m) ! j ! i)))
                   [0..<ncols m]) [0..<nrows m]
        = map (\<lambda>r. unfiltered_col flag off r (g r)) (elems m)"
  proof (rule nth_equalityI)
    fix j
    assume "j < length (map (\<lambda>j. map (\<lambda>i. fillna0 (ratio_elem flag off (elems m ! j ! i)
              (map g (elems m) ! j ! i))) [0..<ncols m]) [0..<nrows m])"
    then have j: "j < nrows m" by simp
    have "map (\<lambda>i. fillna0 (ratio_elem flag off (elems m ! j ! i) (g (elems m ! j) ! i))) [0..<ncols m]
          = unfiltered_col flag off (elems m ! j) (g (elems m ! j))"
      unfolding unfiltered_col_def
      by (rule map_idx_zip) (simp_all add: rows [OF j] g)
    then show "map (\<lambda>j. map (\<lambda>i. fillna0 (ratio_elem flag off (elems m ! j ! i)
              (map g (elems m) ! j ! i))) [0..<ncols m]) [0..<nrows m] ! j
          = map (\<lambda>r. unfiltered_col flag off r (g r)) (elems m) ! j"
      using j len by simp
  qed (simp add: len)
  then show ?thesis
    using calc_dff_unfiltered_2d_idx [OF assms(1), of "map g (elems m)" flag off] len by simp
qed

lemma filter_dff_cols:
  "filter_dff \<lparr>df_len = n, df_cols = U\<rparr> h mp =
     (if h \<le> 0 then Inl ValueError
      else Inr \<lparr>df_len = n, df_cols = map (\<lambda>u. map fillna0 (ewm_mean_col h (nat mp) u)) U\<rparr>)"
  by (simp add: filter_dff_def ewm_mean_def bind_err_def fillna_def df_map_cols_def)

lemma dff_calc_2d_plain:
  assumes "wf_mat m"
  shows "dff_calc (A2 m) fps tau_0 tau_1 tau_2 False flag =
           (if params_ok fps tau_0 tau_1 tau_2
            then Inr (A2 \<lparr>nrows = nrows m, ncols = ncols m,
                          elems = map (channel_of fps tau_0 tau_1 tau_2 False flag) (elems m)\<rparr>)
            else Inl ValueError)"
proof -
  obtain h w1 w2 mp where p: "apply_units_and_corrections fps tau_0 tau_1 tau_2 = (h, w1, w2, mp)"
    by (cases "apply_units_and_corrections fps tau_0 tau_1 tau_2") auto
  have mp: "1 \<le> mp" using p by (auto simp: apply_units_and_corrections_def Let_def)
  have len: "length (elems m) = nrows m" and rows: "\<forall>r \<in> set (elems m). length r = ncols m"
    using assms by (simp_all add: wf_mat_def list_all_iff)
  let ?g = "f0_col (nat w1) (nat w2) (nat mp)"
  let ?U = "map (\<lambda>r. unfiltered_col flag (5 / 100) r (?g r)) (elems m)"
  let ?D = "\<lparr>df_len = ncols m, df_cols = map (\<lambda>u. map fillna0 (ewm_mean_col h (nat mp) u)) ?U\<rparr>"
  have wf: "wf_df ?D" using rows by (simp add: wf_df_def list_all_iff)
  show ?thesis
  proof (cases "params_ok fps tau_0 tau_1 tau_2")
    case True
    then have ok: "0 \<le> w1" "0 \<le> w2" "mp \<le> w2" "0 < h" using p by (simp_all add: params_ok_def)
    have f0: "calc_f0 (A2 m) w1 w2 mp = Inr \<lparr>df_len = ncols m, df_cols = map ?g (elems m)\<rparr>"
      using ok mp by (simp add: calc_f0_2d [OF assms])
    have unf: "calc_dff_unfiltered \<lparr>df_len = ncols m, df_cols = map ?g (elems m)\<rparr> (A2 m) flag (5 / 100)
                 = Inr \<lparr>df_len = ncols m, df_cols = ?U\<rparr>"
      by (rule calc_dff_unfiltered_2d [OF assms]) simp
    have flt: "filter_dff \<lparr>df_len = ncols m, df_cols = ?U\<rparr> h mp = Inr ?D"
      using ok by (simp add: filter_dff_cols)
    have "dff_calc (A2 m) fps tau_0 tau_1 tau_2 False flag = Inr (np_T (to_numpy ?D))"
      by (simp add: dff_calc_def Let_def p f0 unf [simplified] flt [simplified] bind_err_def)
    also have "np_T (to_numpy ?D) = A2 \<lparr>nrows = nrows m, ncols = ncols m,
                          elems = map (channel_of fps tau_0 tau_1 tau_2 False flag) (elems m)\<rparr>"
      unfolding np_T_to_numpy [OF wf] by (simp add: len channel_of_def p channel_dff_def)
    finally show ?thesis using True by simp
  next
    case False
    then have bad: "\<not> (0 \<le> w1 \<and> 0 \<le> w2 \<and> mp \<le> w2) \<or> h \<le> 0"
      using p by (auto simp: params_ok_def)
    show ?thesis
    proof (cases "0 \<le> w1 \<and> 0 \<le> w2 \<and> mp \<le> w2")
      case notok: False
      then have "calc_f0 (A2 m) w1 w2 mp = Inl ValueError"
        by (simp add: calc_f0_2d [OF assms])
      then show ?thesis using False by (simp add: dff_calc_def Let_def p bind_err_def)
    next
      case True
      then have h: "h \<le> 0" using bad by simp
      have f0: "calc_f0 (A2 m) w1 w2 mp = Inr \<lparr>df_len = ncols m, df_cols = map ?g (elems m)\<rparr>"
        using True mp by (simp add: calc_f0_2d [OF assms])
      have unf: "calc_dff_unfiltered \<lparr>df_len = ncols m, df_cols = map ?g (elems m)\<rparr> (A2 m) flag (5 / 100)
                 = Inr \<lparr>df_len = ncols m, df_cols = ?U\<rparr>"
        by (rule calc_dff_unfiltered_2d [OF assms]) simp
      have flt: "filter_dff \<lparr>df_len = ncols m, df_cols = ?U\<rparr> h mp = Inl ValueError"
        using h by (simp add: filter_dff_cols)
      show ?thesis using False
        by (simp add: dff_calc_def Let_def p f0 unf [simplified] flt [simplified] bind_err_def)
    qed
  qed
qed

lemma wf_mat_map: "wf_mat m \<Longrightarrow> wf_mat (mat_map f m)"
  by (simp add: wf_mat_def mat_map_def list_all_iff)

lemma dff_calc_2d:
  assumes "wf_mat m"
  shows "dff_calc (A2 m) fps tau_0 tau_1 tau_2 invert flag =
           (if params_ok fps tau_0 tau_1 tau_2
            then Inr (A2 \<lparr>nrows = nrows m, ncols = ncols m,
                          elems = map (channel_of fps tau_0 tau_1 tau_2 invert flag) (elems m)\<rparr>)
            else Inl ValueError)"
proof (cases invert)
  case False
  then show ?thesis using dff_calc_2d_plain [OF assms] by simp
next
  case True
  have "dff_calc (A2 m) fps tau_0 tau_1 tau_2 True flag
        = dff_calc (A2 (mat_map fl_neg m)) fps tau_0 tau_1 tau_2 False flag"
    by (simp add: dff_calc_def Let_def np_neg_def)
  also have "\<dots> = (if params_ok fps tau_0 tau_1 tau_2
            then Inr (A2 \<lparr>nrows = nrows m, ncols = ncols m,
                          elems = map (channel_of fps tau_0 tau_1 tau_2 True flag) (elems m)\<rparr>)
            else Inl ValueError)"
    unfolding dff_calc_2d_plain [OF wf_mat_map [OF assms]]
    by (simp add: mat_map_def channel_of_def split: prod.splits)
  finally show ?thesis using True by simp
qed

subsection \<open>The parameter normalizer\<close>

text \<open>
  C6, as the code has it. For every frame rate and every time constants the normalizer
  returns \<open>fps * tau_0\<close> as a real, the products \<open>fps * tau_1\<close> and \<open>fps * tau_2\<close>
  truncated towards zero (which is the floor exactly when the product is not negative),
  and \<open>max 1 (floor (fps / 10))\<close>.
\<close>

theorem apply_units_and_corrections_values:
  "apply_units_and_corrections fps tau_0 tau_1 tau_2 =
     (fps * tau_0,
      (if 0 \<le> fps * tau_1 then \<lfloor>fps * tau_1\<rfloor> else \<lceil>fps * tau_1\<rceil>),
      (if 0 \<le> fps * tau_2 then \<lfloor>fps * tau_2\<rfloor> else \<lceil>fps * tau_2\<rceil>),
      max 1 \<lfloor>fps / 10\<rfloor>)"
  unfolding apply_units_and_corrections_def Let_def max_one_py_int
  by (simp add: py_int_def)

theorem apply_units_and_corrections_values_witness:
  "apply_units_and_corrections 30 (1 / 10) (35 / 100) 2 = (3, 10, 60, 3)"
  using apply_units_and_corrections_values [of 30 "1 / 10" "35 / 100" 2]
  by simp

text \<open>
  With \<open>fps = 1\<close> and \<open>tau_1 = -1/2\<close> the second component is \<open>int(-0.5) = 0\<close>,
  not \<open>floor(-0.5) = -1\<close>.
\<close>

theorem apply_units_and_corrections_floor_counterexample:
  "apply_units_and_corrections 1 0 (- 1 / 2) 0
     \<noteq> (1 * 0, \<lfloor>1 * (- 1 / 2) :: real\<rfloor>, \<lfloor>1 * 0 :: real\<rfloor>, max 1 \<lfloor>1 / 10 :: real\<rfloor>)"
  by (simp add: apply_units_and_corrections_def py_int_def ceiling_def)

subsection \<open>Inversion\<close>

text \<open>
  C8. Calling \<open>dff_calc\<close> with \<open>invert=True\<close> on a trace gives exactly the result
  (value or error) of calling it with \<open>invert=False\<close> on the negated trace, for every
  input and every setting of the other parameters.
\<close>

theorem dff_calc_invert_is_negated_input:
  "dff_calc x fps tau_0 tau_1 tau_2 True low_background_flag
     = dff_calc (np_neg x) fps tau_0 tau_1 tau_2 False low_background_flag"
  by (simp add: dff_calc_def Let_def)

subsection \<open>The raw ratio\<close>

text \<open>
  C2. Let \<open>data\<close> be a two-dimensional trace array and \<open>f0\<close> a baseline table of the
  matching shape. At every channel \<open>c\<close> and timepoint \<open>t\<close> where the trace value \<open>x\<close> is
  finite and the baseline value \<open>b\<close> is finite and strictly positive, the raw ratio that
  \<open>calc_dff_unfiltered\<close> computes with the offset 0.05 passed by \<open>dff_calc\<close> is
  \<open>(x - b) / b\<close> when \<open>low_background_flag\<close> is false and
  \<open>(x + 2 * 0.05 - b) / (b + 0.05)\<close> when it is true.
\<close>

theorem raw_ratio_elementwise:
  assumes "wf_mat data" and "df_len f0 = ncols data" and "length (df_cols f0) = nrows data"
    and "c < nrows data" and "t < ncols data"
    and "elems data ! c ! t = Fin x" and "df_cols f0 ! c ! t = Fin b" and "0 < b"
  shows "\<exists>u. calc_dff_unfiltered f0 (A2 data) flag (5 / 100) = Inr u \<and>
             df_cols u ! c ! t =
               Fin (if flag then (x + 2 * (5 / 100) - b) / (b + 5 / 100) else (x - b) / b)"
proof -
  have f0: "f0 = \<lparr>df_len = ncols data, df_cols = df_cols f0\<rparr>"
    using assms(2) by (cases f0) simp
  have "ratio_elem flag (5 / 100) (Fin x) (Fin b) =
          Fin (if flag then (x + 2 * (5 / 100) - b) / (b + 5 / 100) else (x - b) / b)"
    using assms(8) by (simp add: ratio_elem_def fl_sub_def)
  then show ?thesis
    using calc_dff_unfiltered_2d_idx [OF assms(1), of "df_cols f0" flag "5 / 100"] assms f0
    by (simp del: fl_div.simps)
qed

theorem raw_ratio_elementwise_witness:
  "(\<exists>u. calc_dff_unfiltered \<lparr>df_len = 1, df_cols = [[Fin 2]]\<rparr>
          (A2 \<lparr>nrows = 1, ncols = 1, elems = [[Fin 3]]\<rparr>) True (5 / 100) = Inr u \<and>
        df_cols u ! 0 ! 0 = Fin (22 / 41))
   \<and> (\<exists>u. calc_dff_unfiltered \<lparr>df_len = 1, df_cols = [[Fin 2]]\<rparr>
          (A2 \<lparr>nrows = 1, ncols = 1, elems = [[Fin 3]]\<rparr>) False (5 / 100) = Inr u \<and>
        df_cols u ! 0 ! 0 = Fin (1 / 2))"
  using raw_ratio_elementwise [of "\<lparr>nrows = 1, ncols = 1, elems = [[Fin 3]]\<rparr>"
      "\<lparr>df_len = 1, df_cols = [[Fin 2]]\<rparr>" 0 0 3 2 True]
    raw_ratio_elementwise [of "\<lparr>nrows = 1, ncols = 1, elems = [[Fin 3]]\<rparr>"
      "\<lparr>df_len = 1, df_cols = [[Fin 2]]\<rparr>" 0 0 3 2 False]
  by (simp add: wf_mat_def)

subsection \<open>Channel independence\<close>

lemma wf_mat_row_single: "wf_mat m \<Longrightarrow> i < nrows m \<Longrightarrow> wf_mat (mat_row i m)"
  by (simp add: wf_mat_def mat_row_def list_all_length)

lemma params_ok_ones: "params_ok 1 1 1 1"
  by (simp add: params_ok_def apply_units_and_corrections_def py_int_def)

text \<open>
  C9. For a two-dimensional input and a channel index \<open>i\<close> within it, running \<open>dff_calc\<close>
  on the single-row array made of row \<open>i\<close> gives the single-row array made of row \<open>i\<close> of
  the result on the whole array; the two calls also raise together.
\<close>

theorem channel_independence:
  assumes "wf_mat m" and "i < nrows m"
  shows "dff_calc (A2 (mat_row i m)) fps tau_0 tau_1 tau_2 invert flag =
           (case dff_calc (A2 m) fps tau_0 tau_1 tau_2 invert flag of
              Inl e \<Rightarrow> Inl e
            | Inr out \<Rightarrow> Inr (A2 (mat_row i (as_2d out))))"
proof -
  have len: "length (elems m) = nrows m" using assms(1) by (simp add: wf_mat_def)
  have single: "dff_calc (A2 (mat_row i m)) fps tau_0 tau_1 tau_2 invert flag =
      (if params_ok fps tau_0 tau_1 tau_2
       then Inr (A2 \<lparr>nrows = 1, ncols = ncols m,
                     elems = [channel_of fps tau_0 tau_1 tau_2 invert flag (elems m ! i)]\<rparr>)
       else Inl ValueError)"
    unfolding dff_calc_2d [OF wf_mat_row_single [OF assms]] by (simp add: mat_row_def)
  show ?thesis
    unfolding single dff_calc_2d [OF assms(1)]
    using assms(2) len by (simp add: mat_row_def)
qed

theorem channel_independence_witness:
  "dff_calc (A2 (mat_row 1 \<lparr>nrows = 2, ncols = 2, elems = [[Fin 1, Fin 2], [Fin 5, Fin 3]]\<rparr>))
       1 1 1 1 False False =
     (case dff_calc (A2 \<lparr>nrows = 2, ncols = 2, elems = [[Fin 1, Fin 2], [Fin 5, Fin 3]]\<rparr>)
             1 1 1 1 False False of
        Inl e \<Rightarrow> Inl e
      | Inr out \<Rightarrow> Inr (A2 (mat_row 1 (as_2d out))))
   \<and> dff_calc (A2 \<lparr>nrows = 2, ncols = 2, elems = [[Fin 1, Fin 2], [Fin 5, Fin 3]]\<rparr>)
             1 1 1 1 False False \<noteq> Inl ValueError"
  using channel_independence [of "\<lparr>nrows = 2, ncols = 2, elems = [[Fin 1, Fin 2], [Fin 5, Fin 3]]\<rparr>" 1
      1 1 1 1 False False]
  by (simp add: wf_mat_def dff_calc_2d params_ok_ones)

subsection \<open>Shapes\<close>

text \<open>
  C1, at a one-dimensional input. With the default parameters the trace \<open>[1, 2]\<close> of
  length 2 comes back as an array of shape \<open>(1, 4)\<close>: \<open>data.T - f0\<close> broadcasts the
  shapes \<open>(2,)\<close> and \<open>(2, 1)\<close> to \<open>(2, 2)\<close>, and \<open>ravel\<close> lists all four entries.
\<close>

theorem dff_calc_1d_shape_example:
  "dff_calc (A1 [Fin 1, Fin 2]) 30 (1 / 10) (35 / 100) 2 False False =
     Inr (A2 \<lparr>nrows = 1, ncols = 4, elems = [[Fin 0, Fin 0, Fin 0, Fin 0]]\<rparr>)"
  by (simp add: dff_calc_def apply_units_and_corrections_def py_int_def Let_def bind_err_def
      calc_f0_def rolling_boxcar_mean_def rolling_min_def df_map_cols_def df_add_scalar_def
      roll_weighted_mean_def roll_min_def window_def calc_dff_unfiltered_def to_numpy_def
      np_binop_def mat_binop_def bdim_def bidx_def fl_sub_def filter_dff_def ewm_mean_def
      ewm_mean_col_def ewm_mean_obs_def ewm_init_def fillna_def upt_rec numeral_2_eq_2)

subsection \<open>The sign of the baseline\<close>

lemma float_eps_pos: "0 < float_eps"
  by (simp add: float_eps_def)

lemma set_fin_vals: "set (fin_vals ys) = {r. Fin r \<in> set ys}"
  by (induction ys rule: fin_vals.induct) auto

lemma set_window: "set (window w t ys) \<subseteq> set ys"
  unfolding window_def
  by (meson set_take_subset set_drop_subset subset_trans)

lemma prep_value_Fin: "prep_value x = Fin r \<Longrightarrow> x = Fin r"
  by (cases x) simp_all

lemma window_obs_nonneg:
  assumes "list_all nonneg_fl xs" and "r \<in> set (fin_vals (window w t (map prep_value xs)))"
  shows "0 \<le> r"
proof -
  have "Fin r \<in> set (map prep_value xs)"
    using assms(2) set_window [of w t "map prep_value xs"] by (auto simp: set_fin_vals)
  then obtain x where "x \<in> set xs" and "prep_value x = Fin r" by auto
  then have "Fin r \<in> set xs" using prep_value_Fin [of x r] by simp
  then show ?thesis using assms(1) by (auto simp: list_all_iff)
qed

lemma roll_weighted_mean_nonneg:
  assumes "list_all nonneg_fl xs" and "v \<in> set (roll_weighted_mean w xs)"
  shows "v = NaN \<or> (\<exists>r. v = Fin r \<and> 0 \<le> r)"
proof -
  obtain t where v: "v = (let obs = fin_vals (window w t (map prep_value xs))
              in if length obs < max w 1 then NaN
                 else Fin (sum_list obs / real (length obs)))"
    using assms(2) by (auto simp: roll_weighted_mean_def)
  have "0 \<le> sum_list (fin_vals (window w t (map prep_value xs)))"
    by (rule sum_list_nonneg) (rule window_obs_nonneg [OF assms(1)])
  then show ?thesis using v by (simp add: Let_def)
qed

lemma roll_min_nonneg:
  assumes "list_all nonneg_fl ys" and "v \<in> set (roll_min w minp ys)"
  shows "v = NaN \<or> (\<exists>r. v = Fin r \<and> 0 \<le> r)"
proof -
  obtain t where v: "v = (let obs = fin_vals (window w t (map prep_value ys))
              in if obs = [] \<or> length obs < minp then NaN else Fin (min_list obs))"
    using assms(2) by (auto simp: roll_min_def)
  let ?obs = "fin_vals (window w t (map prep_value ys))"
  show ?thesis
  proof (cases "?obs = [] \<or> length ?obs < minp")
    case True
    then show ?thesis using v by (simp add: Let_def)
  next
    case False
    then have "min_list ?obs \<in> set ?obs"
      by (simp add: min_list_Min)
    then have "0 \<le> min_list ?obs" by (rule window_obs_nonneg [OF assms(1)])
    then show ?thesis using v False by (simp add: Let_def)
  qed
qed

lemma f0_col_pos:
  assumes "list_all nonneg_fl xs"
  shows "list_all pos_or_nan (f0_col w1 w2 minp xs)"
proof -
  have avg: "list_all nonneg_fl (roll_weighted_mean w1 xs)"
    using roll_weighted_mean_nonneg [OF assms] by (fastforce simp: list_all_iff)
  have "\<And>v. v \<in> set (roll_min w2 minp (roll_weighted_mean w1 xs)) \<Longrightarrow>
          pos_or_nan (fl_add v (Fin float_eps))"
    using roll_min_nonneg [OF avg] float_eps_pos by fastforce
  then show ?thesis by (simp add: f0_col_def list_all_iff)
qed

lemma calc_f0_cols:
  assumes "wf_array data" and "calc_f0 data t1 t2 mp = Inr f0"
  shows "df_cols f0 = map (f0_col (nat t1) (nat t2) (nat mp))
                        (case data of A1 xs \<Rightarrow> [xs] | A2 m \<Rightarrow> elems m)"
proof (cases data)
  case (A1 xs)
  then show ?thesis
    using assms(2)
    by (auto simp: calc_f0_def bind_err_def rolling_boxcar_mean_def rolling_min_def
        df_map_cols_def df_add_scalar_def f0_col_def split: if_splits)
next
  case (A2 m)
  then have "wf_mat m" using assms(1) by simp
  then show ?thesis
    using assms(2) A2 by (auto simp: calc_f0_2d split: if_splits)
qed

text \<open>
  C4, as the code has it. For every trace array none of whose finite values is negative,
  every entry of the baseline table that \<open>calc_f0\<close> returns is either undefined (NaN)
  or finite and strictly positive.
\<close>

theorem f0_positive_on_nonnegative_traces:
  assumes "wf_array data" and "array_all nonneg_fl data" and "calc_f0 data tau_1 tau_2 min_per = Inr f0"
  shows "df_all pos_or_nan f0"
proof -
  have "list_all (list_all nonneg_fl) (case data of A1 xs \<Rightarrow> [xs] | A2 m \<Rightarrow> elems m)"
    using assms(2) by (cases data) simp_all
  then have "\<And>c. c \<in> set (case data of A1 xs \<Rightarrow> [xs] | A2 m \<Rightarrow> elems m) \<Longrightarrow>
      list_all pos_or_nan (f0_col (nat tau_1) (nat tau_2) (nat min_per) c)"
    using f0_col_pos by (simp add: list_all_iff [of "list_all nonneg_fl"])
  then show ?thesis
    unfolding df_all_def calc_f0_cols [OF assms(1,3)]
    by (simp add: list_all_iff [of "list_all pos_or_nan"])
qed

theorem f0_positive_on_nonnegative_traces_witness:
  "calc_f0 (A2 \<lparr>nrows = 1, ncols = 2, elems = [[Fin 0, Fin 3]]\<rparr>) 1 1 1
     = Inr \<lparr>df_len = 2, df_cols = [[Fin float_eps, Fin (3 + float_eps)]]\<rparr>
   \<and> df_all pos_or_nan \<lparr>df_len = 2, df_cols = [[Fin float_eps, Fin (3 + float_eps)]]\<rparr>"
proof -
  have c: "calc_f0 (A2 \<lparr>nrows = 1, ncols = 2, elems = [[Fin 0, Fin 3]]\<rparr>) 1 1 1
     = Inr \<lparr>df_len = 2, df_cols = [[Fin float_eps, Fin (3 + float_eps)]]\<rparr>"
    by (simp add: calc_f0_def bind_err_def rolling_boxcar_mean_def rolling_min_def
        df_map_cols_def df_add_scalar_def roll_weighted_mean_def roll_min_def window_def
        mat_T_def upt_rec numeral_2_eq_2)
  show ?thesis
    using f0_positive_on_nonnegative_traces [OF _ _ c] c by (simp add: wf_mat_def)
qed

text \<open>
  On a trace with a negative value the baseline is negative: the inverted single-sample
  trace \<open>[[1]]\<close> with all windows of length 1 has the baseline \<open>- 1 + eps\<close>.
\<close>

theorem f0_negative_counterexample:
  "calc_f0 (np_neg (A2 \<lparr>nrows = 1, ncols = 1, elems = [[Fin 1]]\<rparr>)) 1 1 1
     = Inr \<lparr>df_len = 1, df_cols = [[Fin (- 1 + float_eps)]]\<rparr>
   \<and> \<not> 0 < - 1 + float_eps"
  by (simp add: calc_f0_def bind_err_def rolling_boxcar_mean_def rolling_min_def
      df_map_cols_def df_add_scalar_def roll_weighted_mean_def roll_min_def window_def
      np_neg_def mat_map_def mat_T_def float_eps_def)

subsection \<open>The boxcar stage\<close>

lemma fin_vals_map_Fin [simp]: "fin_vals (map Fin ys) = ys"
  by (induction ys) simp_all

lemma prep_value_map_Fin [simp]: "map prep_value (map Fin ys) = map Fin ys"
  by (induction ys) simp_all

lemma window_map: "window w t (map f ys) = map f (window w t ys)"
  by (simp add: window_def take_map drop_map)

lemma length_window: "t < length ys \<Longrightarrow> length (window w t ys) = min w (Suc t)"
  by (auto simp: window_def)

lemma sum_list_window:
  assumes "t < length ys" and "w \<le> Suc t"
  shows "sum_list (window w t ys) = (\<Sum>k<w. ys ! (Suc t - w + k) :: real)"
proof -
  have "sum_list (window w t ys) = (\<Sum>k = 0..<w. window w t ys ! k)"
    using length_window [OF assms(1), of w] assms(2)
    by (simp add: sum_list_sum_nth min_def)
  also have "\<dots> = (\<Sum>k = 0..<w. ys ! (Suc t - w + k))"
    using assms by (intro sum.cong) (auto simp: window_def min_def)
  finally show ?thesis by (simp add: lessThan_atLeast0)
qed

lemma obs_finite: "fin_vals (window w t (map prep_value (map Fin ys))) = window w t ys"
  by (simp only: prep_value_map_Fin window_map fin_vals_map_Fin)

lemma roll_weighted_mean_finite_nth:
  assumes "t < length ys"
  shows "roll_weighted_mean w (map Fin ys) ! t =
           (if 1 \<le> w \<and> w \<le> Suc t
            then Fin ((\<Sum>k<w. ys ! (Suc t - w + k)) / real w) else NaN)"
proof (cases "1 \<le> w \<and> w \<le> Suc t")
  case True
  then show ?thesis
    unfolding roll_weighted_mean_def obs_finite
    using assms sum_list_window [OF assms, of w] length_window [OF assms, of w]
    by (simp add: Let_def min_def max_def)
next
  case False
  then show ?thesis
    unfolding roll_weighted_mean_def obs_finite
    using assms length_window [OF assms, of w]
    by (auto simp: Let_def min_def max_def)
qed

text \<open>
  C3, as the code has it. On a two-dimensional trace, for a channel \<open>c\<close> whose samples
  \<open>xs\<close> are all finite and a timepoint \<open>t\<close>, the first stage of the baseline estimator
  with window length \<open>w \<ge> 0\<close> yields the mean of the \<open>w\<close> samples at positions
  \<open>t - w + 1\<close> to \<open>t\<close> (a trailing window, the timepoint being its last position), and
  NaN when \<open>w = 0\<close> or fewer than \<open>w\<close> samples lie in that window (\<open>t + 1 < w\<close>); no
  \<open>min_per\<close> enters.
\<close>

theorem boxcar_stage_is_trailing_mean:
  assumes "wf_mat m" and "c < nrows m" and "t < ncols m" and "0 \<le> w"
    and "elems m ! c = map Fin xs"
  shows "\<exists>avg. rolling_boxcar_mean w (DataFrame (np_T (A2 m))) = Inr avg \<and>
           df_cols avg ! c ! t =
             (if 1 \<le> w \<and> nat w \<le> Suc t
              then Fin ((\<Sum>k<nat w. xs ! (Suc t - nat w + k)) / real (nat w)) else NaN)"
proof -
  have len: "length (elems m) = nrows m" and row: "length (elems m ! c) = ncols m"
    using assms(1,2) by (simp_all add: wf_mat_def list_all_length)
  then have t: "t < length xs" using assms(3,5) by simp
  have "df_cols (df_map_cols (roll_weighted_mean (nat w)) (DataFrame (np_T (A2 m)))) ! c
          = roll_weighted_mean (nat w) (map Fin xs)"
    unfolding DataFrame_T [OF assms(1)] using assms(2,5) len by (simp add: df_map_cols_def)
  then show ?thesis
    using assms(4) roll_weighted_mean_finite_nth [OF t, of "nat w"]
    by (auto simp: rolling_boxcar_mean_def)
qed

theorem boxcar_stage_is_trailing_mean_witness:
  "\<exists>avg. rolling_boxcar_mean 2 (DataFrame (np_T (A2 \<lparr>nrows = 1, ncols = 3,
              elems = [[Fin 1, Fin 2, Fin 6]]\<rparr>))) = Inr avg \<and>
         df_cols avg ! 0 ! 2 = Fin 4"
  using boxcar_stage_is_trailing_mean [of "\<lparr>nrows = 1, ncols = 3,
              elems = [[Fin 1, Fin 2, Fin 6]]\<rparr>" 0 2 2 "[1, 2, 6]"]
  by (simp add: wf_mat_def lessThan_Suc numeral_2_eq_2)

text \<open>
  On the trace \<open>[1, 2, 6]\<close> with a window of 3 the code is defined at the last timepoint
  only, where it averages all three samples; a centered window is defined at the middle
  timepoint only.
\<close>

theorem boxcar_stage_not_centered_counterexample:
  "rolling_boxcar_mean 3 (DataFrame (np_T (A2 \<lparr>nrows = 1, ncols = 3,
        elems = [[Fin 1, Fin 2, Fin 6]]\<rparr>)))
     = Inr \<lparr>df_len = 3, df_cols = [[NaN, NaN, Fin 3]]\<rparr>
   \<and> df_map_cols (spec_centered_boxcar_mean 3) (DataFrame (np_T (A2 \<lparr>nrows = 1, ncols = 3,
        elems = [[Fin 1, Fin 2, Fin 6]]\<rparr>)))
     = \<lparr>df_len = 3, df_cols = [[NaN, Fin 3, NaN]]\<rparr>"
  by (simp add: rolling_boxcar_mean_def df_map_cols_def roll_weighted_mean_def
      spec_centered_boxcar_mean_def window_def mat_T_def upt_rec numeral_3_eq_3)

subsection \<open>The exponential smoother\<close>

lemma ewm_factor: "1 - ewm_alpha h = exp (- ln 2 / h)"
  by (simp add: ewm_alpha_def)

lemma ewm_factor_pos: "0 < 1 - ewm_alpha h"
  by (simp add: ewm_alpha_def)

lemma ewm_factor_power: "(1 - ewm_alpha h) ^ k = (1 / 2) powr (real k / h)"
proof -
  have "(1 - ewm_alpha h) ^ k = exp (real k * (- ln 2 / h))"
    unfolding ewm_factor by (rule exp_of_nat_mult [symmetric])
  also have "real k * (- ln 2 / h) = (real k / h) * ln (1 / 2)"
    by (simp add: ln_div)
  also have "exp ((real k / h) * ln (1 / 2)) = (1 / 2) powr (real k / h)"
    by (simp add: powr_def)
  finally show ?thesis .
qed

lemma weight_sum_Suc: "(\<Sum>j\<le>Suc n. q ^ j) = 1 + q * (\<Sum>j\<le>n. q ^ j :: real)"
  by (simp add: sum.atMost_Suc_shift sum_distrib_left del: sum.atMost_Suc)

lemma weighted_sum_Suc:
  "(\<Sum>i\<le>Suc n. q ^ (Suc n - i) * f i) = f (Suc n) + q * (\<Sum>i\<le>n. q ^ (n - i) * f i :: real)"
proof -
  have "(\<Sum>i\<le>n. q ^ (Suc n - i) * f i) = (\<Sum>i\<le>n. q * (q ^ (n - i) * f i))"
    by (intro sum.cong) (simp_all add: Suc_diff_le)
  then show ?thesis by (simp add: sum_distrib_left)
qed

lemma weight_sum_pos: "0 < q \<Longrightarrow> 0 < (\<Sum>j\<le>n. q ^ j :: real)"
  by (induction n) (simp_all add: add_pos_pos)

lemma ewm_step_update:
  fixes W S x q :: real
  assumes "0 < W" and "0 < q"
  shows "(if S / W \<noteq> x then (W * q * (S / W) + 1 * x) / (W * q + 1) else S / W)
           = (x + q * S) / (1 + q * W)"
proof (cases "S / W = x")
  case True
  then have "S = x * W" using assms(1) by (simp add: field_simps)
  then have "x + q * S = x * (1 + q * W)" by (simp add: algebra_simps)
  moreover have "0 < 1 + q * W" using assms by (simp add: add_pos_pos)
  ultimately show ?thesis using True by simp
next
  case False
  have "W * q * (S / W) = q * S" using assms(1) by simp
  then show ?thesis using False by (simp add: add.commute mult.commute)
qed

lemma ewm_step_average:
  assumes "0 < q"
  shows "ewm_step q (Some ((\<Sum>i\<le>n. q ^ (n - i) * f i) / (\<Sum>j\<le>n. q ^ j)), (\<Sum>j\<le>n. q ^ j), Suc n)
             (Some (f (Suc n)))
         = (Some ((\<Sum>i\<le>Suc n. q ^ (Suc n - i) * f i) / (\<Sum>j\<le>Suc n. q ^ j)),
            (\<Sum>j\<le>Suc n. q ^ j), Suc (Suc n))"
proof -
  define W where "W = (\<Sum>j\<le>n. q ^ j)"
  define S where "S = (\<Sum>i\<le>n. q ^ (n - i) * f i)"
  have W: "0 < W" unfolding W_def by (rule weight_sum_pos [OF assms])
  have "ewm_step q (Some (S / W), W, Suc n) (Some (f (Suc n)))
          = (Some ((f (Suc n) + q * S) / (1 + q * W)), 1 + q * W, Suc (Suc n))"
    unfolding ewm_step.simps Let_def ewm_step_update [OF W assms]
    by (simp add: mult.commute)
  then show ?thesis
    unfolding weight_sum_Suc weighted_sum_Suc W_def S_def .
qed

lemma ewm_loop_average:
  assumes "0 < q"
  shows "ewm_loop q minp
           (Some ((\<Sum>i\<le>n. q ^ (n - i) * f i) / (\<Sum>j\<le>n. q ^ j)), (\<Sum>j\<le>n. q ^ j), Suc n)
           (map (\<lambda>k. Some (f k)) [Suc n..<N])
         = map (\<lambda>k. if minp \<le> Suc k
                     then Some ((\<Sum>i\<le>k. q ^ (k - i) * f i) / (\<Sum>j\<le>k. q ^ j)) else None)
             [Suc n..<N]"
proof (induction "N - Suc n" arbitrary: n)
  case 0
  then show ?case by simp
next
  case (Suc d)
  then have lt: "Suc n < N" and d: "d = N - Suc (Suc n)" by simp_all
  have split: "[Suc n..<N] = Suc n # [Suc (Suc n)..<N]"
    using lt by (simp add: upt_conv_Cons)
  show ?case
    unfolding split list.map ewm_loop.simps Let_def ewm_step_average [OF assms]
    using Suc.hyps(1) [OF d] by (simp del: sum.atMost_Suc)
qed

lemma map_Some_tail:
  "map (\<lambda>k. Some ((x # rest) ! k)) [Suc 0..<Suc (length rest)] = map Some rest"
proof -
  have "map (\<lambda>k. Some ((x # rest) ! k)) [Suc 0..<Suc (length rest)]
          = map (\<lambda>k. Some ((x # rest) ! k)) (map Suc [0..<length rest])"
    by (simp only: map_Suc_upt)
  also have "\<dots> = map Some (map ((!) rest) [0..<length rest])"
    by (simp del: upt_Suc)
  also have "\<dots> = map Some rest"
    by (simp only: map_nth)
  finally show ?thesis .
qed

lemma ewm_mean_obs_average:
  assumes "0 < q" and "t < length xs"
  shows "ewm_mean_obs q minp (map Some xs) ! t =
           (if minp \<le> Suc t
            then Some ((\<Sum>i\<le>t. q ^ (t - i) * xs ! i) / (\<Sum>j\<le>t. q ^ j)) else None)"
proof -
  define avg where "avg = (\<lambda>k. if minp \<le> Suc k
                     then Some ((\<Sum>i\<le>k. q ^ (k - i) * xs ! i) / (\<Sum>j\<le>k. q ^ j)) else None)"
  obtain x rest where xs: "xs = x # rest" using assms(2) by (cases xs) auto
  have rest: "map Some rest = map (\<lambda>k. Some (xs ! k)) [Suc 0..<length xs]"
    unfolding xs using map_Some_tail [of x rest] by simp
  have init: "ewm_init (Some x) =
      (Some ((\<Sum>i\<le>0. q ^ (0 - i) * xs ! i) / (\<Sum>j\<le>0::nat. q ^ j)), (\<Sum>j\<le>0::nat. q ^ j), Suc 0)"
    by (simp add: ewm_init_def xs)
  have emit0: "ewm_emit minp (ewm_init (Some x)) = avg 0"
    by (simp add: ewm_init_def xs avg_def)
  have "ewm_mean_obs q minp (map Some xs)
          = ewm_emit minp (ewm_init (Some x)) # ewm_loop q minp (ewm_init (Some x)) (map Some rest)"
    by (simp add: ewm_mean_obs_def xs)
  also have "ewm_loop q minp (ewm_init (Some x)) (map Some rest) = map avg [Suc 0..<length xs]"
    unfolding rest init ewm_loop_average [OF assms(1)] avg_def ..
  finally have "ewm_mean_obs q minp (map Some xs) = avg 0 # map avg [Suc 0..<length xs]"
    unfolding emit0 .
  also have "\<dots> = map avg [0..<length xs]"
    using assms(2) by (simp only: upt_conv_Cons [of 0 "length xs"] list.map)
  finally have "ewm_mean_obs q minp (map Some xs) ! t = avg t"
    using assms(2) by (simp del: upt_Suc)
  then show ?thesis unfolding avg_def .
qed

lemma weight_sum_reflect: "(\<Sum>j\<le>t. q ^ j) = (\<Sum>i\<le>t. q ^ (t - i) :: real)"
  using sum.nat_diff_reindex [of "\<lambda>j. q ^ j" "Suc t"]
  by (simp add: lessThan_Suc_atMost del: sum.atMost_Suc sum.lessThan_Suc)

lemma obs_of_finite: "map (obs_of \<circ> prep_value) (map Fin xs) = map Some xs"
  by (induction xs) simp_all

lemma ewm_mean_col_finite:
  assumes "t < length xs"
  shows "ewm_mean_col h minp (map Fin xs) ! t =
           (if max minp 1 \<le> Suc t
            then Fin ((\<Sum>i\<le>t. (1 / 2) powr (real (t - i) / h) * xs ! i)
                      / (\<Sum>i\<le>t. (1 / 2) powr (real (t - i) / h)))
            else NaN)"
proof -
  have "ewm_mean_col h minp (map Fin xs) ! t
          = fl_of (ewm_mean_obs (1 - ewm_alpha h) (max minp 1) (map Some xs) ! t)"
    using assms by (simp add: ewm_mean_col_def obs_of_finite del: map_map)
  then show ?thesis
    unfolding ewm_mean_obs_average [OF ewm_factor_pos assms] weight_sum_reflect ewm_factor_power
    by simp
qed

text \<open>
  C5. Let the raw ratios of a channel be the finite values \<open>xs\<close>, the half-life
  \<open>tau_0\<close> be positive and \<open>min_per\<close> at least 1 (as the normalizer makes it). At a
  timepoint \<open>t\<close> that has at least \<open>min_per\<close> observations at the positions \<open>0, \<dots>, t\<close> the
  smoother returns the average of those observations weighted by
  \<open>0.5 powr (lag / tau_0)\<close>, the weights being renormalized by their sum over the
  available history; at an earlier timepoint the moving average is NaN and
  \<open>filter_dff\<close> returns 0.
\<close>

theorem smoother_is_normalized_halflife_average:
  assumes "0 < tau_0" and "1 \<le> min_per" and "c < length (df_cols u)"
    and "df_cols u ! c = map Fin xs" and "t < length xs"
  shows "\<exists>avg d. ewm_mean tau_0 min_per u = Inr avg \<and> filter_dff u tau_0 min_per = Inr d \<and>
           (if nat min_per \<le> Suc t
            then df_cols avg ! c ! t =
                   Fin ((\<Sum>i\<le>t. (1 / 2) powr (real (t - i) / tau_0) * xs ! i)
                        / (\<Sum>i\<le>t. (1 / 2) powr (real (t - i) / tau_0)))
                 \<and> df_cols d ! c ! t = df_cols avg ! c ! t
            else df_cols avg ! c ! t = NaN \<and> df_cols d ! c ! t = Fin 0)"
proof -
  have m: "max (nat min_per) 1 = nat min_per" using assms(2) by simp
  have "ewm_mean tau_0 min_per u = Inr (df_map_cols (ewm_mean_col tau_0 (nat min_per)) u)"
    using assms(1) by (simp add: ewm_mean_def)
  moreover have "filter_dff u tau_0 min_per
          = Inr (fillna (df_map_cols (ewm_mean_col tau_0 (nat min_per)) u))"
    using assms(1) by (simp add: filter_dff_def ewm_mean_def bind_err_def)
  moreover have "df_cols (df_map_cols (ewm_mean_col tau_0 (nat min_per)) u) ! c ! t
          = ewm_mean_col tau_0 (nat min_per) (map Fin xs) ! t"
    using assms(3,4) by (simp add: df_map_cols_def)
  moreover have "df_cols (fillna (df_map_cols (ewm_mean_col tau_0 (nat min_per)) u)) ! c ! t
          = fillna0 (ewm_mean_col tau_0 (nat min_per) (map Fin xs) ! t)"
    using assms(3,4,5) by (simp add: df_map_cols_def fillna_def)
  ultimately show ?thesis
    unfolding ewm_mean_col_finite [OF assms(5)] m by simp
qed

theorem smoother_is_normalized_halflife_average_witness:
  "\<exists>avg d. ewm_mean 1 1 \<lparr>df_len = 2, df_cols = [[Fin 1, Fin 4]]\<rparr> = Inr avg \<and>
       filter_dff \<lparr>df_len = 2, df_cols = [[Fin 1, Fin 4]]\<rparr> 1 1 = Inr d \<and>
       df_cols avg ! 0 ! 1 = Fin 3 \<and> df_cols d ! 0 ! 1 = Fin 3"
  using smoother_is_normalized_halflife_average
    [of 1 1 0 "\<lparr>df_len = 2, df_cols = [[Fin 1, Fin 4]]\<rparr>" "[1, 4]" "Suc 0"]
  by auto

subsection \<open>Undefined values and the warm-up\<close>

lemma length_fin_vals_le: "length (fin_vals zs) \<le> length zs"
  by (induction zs rule: fin_vals.induct) simp_all

lemma fin_vals_append: "fin_vals (as @ bs) = fin_vals as @ fin_vals bs"
  by (induction as rule: fin_vals.induct) simp_all

lemma fin_vals_all_NaN: "(\<And>v. v \<in> set zs \<Longrightarrow> prep_value v = NaN) \<Longrightarrow> fin_vals (map prep_value zs) = []"
  by (induction zs) simp_all

lemma window_as_drop: "window w t zs = drop (Suc t - w) (take (Suc t) zs)"
  by (simp add: window_def drop_take min_def)

lemma length_obs_window_le:
  "length (fin_vals (window w t zs)) \<le> length (fin_vals (take (Suc t) zs))"
proof -
  have "take (Suc t - w) (take (Suc t) zs) @ window w t zs = take (Suc t) zs"
    unfolding window_as_drop by (rule append_take_drop_id)
  then have "fin_vals (take (Suc t) zs)
          = fin_vals (take (Suc t - w) (take (Suc t) zs)) @ fin_vals (window w t zs)"
    by (simp only: fin_vals_append [symmetric])
  then show ?thesis by simp
qed

lemma roll_weighted_mean_warmup:
  assumes "s < length xs" and "Suc s < w \<or> w = 0"
  shows "roll_weighted_mean w xs ! s = NaN"
proof -
  have "length (fin_vals (window w s (map prep_value xs))) \<le> length (window w s (map prep_value xs))"
    by (rule length_fin_vals_le)
  also have "\<dots> \<le> min w (Suc s)" by (auto simp: window_def)
  finally have "length (fin_vals (window w s (map prep_value xs))) < max w 1"
    using assms(2) by auto
  then show ?thesis using assms(1) by (simp add: roll_weighted_mean_def Let_def)
qed

lemma obs_after_NaN_prefix:
  assumes "\<And>s. s < k \<Longrightarrow> s < length ys \<Longrightarrow> ys ! s = NaN"
  shows "length (fin_vals (map prep_value (take n ys))) \<le> n - k"
proof -
  have "\<And>v. v \<in> set (take k (take n ys)) \<Longrightarrow> prep_value v = NaN"
  proof -
    fix v assume "v \<in> set (take k (take n ys))"
    then obtain s where "s < length (take k (take n ys))" and "v = take k (take n ys) ! s"
      by (auto simp: in_set_conv_nth)
    then have "s < k" "s < length ys" "v = ys ! s" by simp_all
    then show "prep_value v = NaN" using assms by simp
  qed
  then have front: "fin_vals (map prep_value (take k (take n ys))) = []"
    by (rule fin_vals_all_NaN)
  have "take n ys = take k (take n ys) @ drop k (take n ys)"
    by (rule append_take_drop_id [symmetric])
  then have "fin_vals (map prep_value (take n ys))
          = fin_vals (map prep_value (take k (take n ys))) @ fin_vals (map prep_value (drop k (take n ys)))"
    by (metis fin_vals_append map_append)
  then have "length (fin_vals (map prep_value (take n ys)))
          = length (fin_vals (map prep_value (drop k (take n ys))))"
    using front by simp
  also have "\<dots> \<le> length (map prep_value (drop k (take n ys)))"
    by (rule length_fin_vals_le)
  also have "\<dots> \<le> n - k" by simp
  finally show ?thesis .
qed

lemma roll_min_warmup:
  assumes "\<And>s. s < k \<Longrightarrow> s < length ys \<Longrightarrow> ys ! s = NaN"
    and "t < length ys" and "Suc t - k < minp \<or> Suc t \<le> k"
  shows "roll_min w minp ys ! t = NaN"
proof -
  let ?obs = "fin_vals (window w t (map prep_value ys))"
  have "length ?obs \<le> length (fin_vals (take (Suc t) (map prep_value ys)))"
    by (rule length_obs_window_le)
  also have "\<dots> \<le> Suc t - k"
    using obs_after_NaN_prefix [of k ys "Suc t"] assms(1) by (simp add: take_map)
  finally have "?obs = [] \<or> length ?obs < minp"
    using assms(3) by auto
  then show ?thesis using assms(2) by (auto simp: roll_min_def Let_def)
qed

lemma f0_col_warmup:
  assumes "t < length xs" and "w1 = 0 \<or> t + 2 < w1 + minp"
  shows "f0_col w1 w2 minp xs ! t = NaN"
proof -
  define k where "k = (if w1 = 0 then length xs else w1 - 1)"
  have pre: "\<And>s. s < k \<Longrightarrow> s < length (roll_weighted_mean w1 xs) \<Longrightarrow>
               roll_weighted_mean w1 xs ! s = NaN"
    by (rule roll_weighted_mean_warmup) (auto simp: k_def split: if_splits)
  have "Suc t - k < minp \<or> Suc t \<le> k"
    using assms by (auto simp: k_def)
  then have "roll_min w2 minp (roll_weighted_mean w1 xs) ! t = NaN"
    using roll_min_warmup [of k "roll_weighted_mean w1 xs" t minp w2] pre assms(1) by simp
  then show ?thesis using assms(1) by (simp add: f0_col_def)
qed

lemma ratio_elem_NaN: "ratio_elem flag off x NaN = NaN"
  by (cases x) (simp_all add: ratio_elem_def fl_sub_def)

lemma unfiltered_col_warmup:
  assumes "t < length xs" and "t < length fs" and "fs ! t = NaN"
  shows "unfiltered_col flag off xs fs ! t = Fin 0"
  using assms by (simp add: unfiltered_col_def ratio_elem_NaN)

lemma ewm_loop_zeros:
  assumes "\<And>s. s \<le> t \<Longrightarrow> xs ! s = Some 0" and "t < length xs"
  shows "ewm_loop q minp (Some 0, old_wt, nobs) xs ! t \<in> {Some 0, None}"
  using assms
proof (induction xs arbitrary: t old_wt nobs)
  case Nil
  then show ?case by simp
next
  case (Cons x xs)
  have x: "x = Some 0" using Cons.prems(1) [of 0] by simp
  show ?case
  proof (cases t)
    case 0
    then show ?thesis using x by (simp add: Let_def)
  next
    case (Suc t')
    have "\<And>s. s \<le> t' \<Longrightarrow> xs ! s = Some 0"
      using Cons.prems(1) Suc by force
    moreover have "t' < length xs" using Cons.prems(2) Suc by simp
    ultimately have "ewm_loop q minp (Some 0, old_wt * q + 1, Suc nobs) xs ! t' \<in> {Some 0, None}"
      by (rule Cons.IH)
    then show ?thesis using x Suc by (simp add: Let_def)
  qed
qed

lemma ewm_mean_obs_zeros:
  assumes "\<And>s. s \<le> t \<Longrightarrow> xs ! s = Some 0" and "t < length xs"
  shows "ewm_mean_obs q minp xs ! t \<in> {Some 0, None}"
proof -
  obtain x rest where xs: "xs = x # rest" using assms(2) by (cases xs) auto
  have x: "x = Some 0" using assms(1) [of 0] xs by simp
  show ?thesis
  proof (cases t)
    case 0
    then show ?thesis by (simp add: ewm_mean_obs_def xs x ewm_init_def)
  next
    case (Suc t')
    have "\<And>s. s \<le> t' \<Longrightarrow> rest ! s = Some 0"
      using assms(1) Suc xs by force
    moreover have "t' < length rest" using assms(2) Suc xs by simp
    ultimately have "ewm_loop q minp (Some 0, 1, 1) rest ! t' \<in> {Some 0, None}"
      by (rule ewm_loop_zeros)
    then show ?thesis using Suc by (simp add: ewm_mean_obs_def xs x ewm_init_def)
  qed
qed

lemma smoothed_zeros:
  assumes "\<And>s. s \<le> t \<Longrightarrow> us ! s = Fin 0" and "t < length us"
  shows "fillna0 (ewm_mean_col h minp us ! t) = Fin 0"
proof -
  have "\<And>s. s \<le> t \<Longrightarrow> map (obs_of \<circ> prep_value) us ! s = Some 0"
    using assms by simp
  then have "ewm_mean_obs (1 - ewm_alpha h) (max minp 1) (map (obs_of \<circ> prep_value) us) ! t
               \<in> {Some 0, None}"
    using assms(2) by (intro ewm_mean_obs_zeros) simp_all
  then show ?thesis using assms(2) by (auto simp: ewm_mean_col_def)
qed

lemma channel_dff_warmup:
  assumes "t < length xs" and "w1 = 0 \<or> t + 2 < w1 + minp"
  shows "channel_dff h w1 w2 minp flag xs ! t = Fin 0"
proof -
  have "\<And>s. s \<le> t \<Longrightarrow> unfiltered_col flag (5 / 100) xs (f0_col w1 w2 minp xs) ! s = Fin 0"
  proof -
    fix s assume s: "s \<le> t"
    then have "f0_col w1 w2 minp xs ! s = NaN"
      using assms by (intro f0_col_warmup) auto
    then show "unfiltered_col flag (5 / 100) xs (f0_col w1 w2 minp xs) ! s = Fin 0"
      using s assms(1) by (intro unfiltered_col_warmup) simp_all
  qed
  then have "fillna0 (ewm_mean_col h minp (unfiltered_col flag (5 / 100) xs (f0_col w1 w2 minp xs)) ! t) = Fin 0"
    using assms(1) by (intro smoothed_zeros) simp_all
  then show ?thesis using assms(1) by (simp add: channel_dff_def)
qed

lemma channel_dff_no_NaN: "NaN \<notin> set (channel_dff h w1 w2 minp flag xs)"
proof -
  have "\<And>v. NaN \<noteq> fillna0 v" by (case_tac v) simp_all
  then show ?thesis by (auto simp: channel_dff_def)
qed

text \<open>
  C7. On a two-dimensional input, whenever pandas accepts the window arguments
  (\<open>params_ok\<close>; the only errors of the pipeline are these argument checks), \<open>dff_calc\<close>
  returns an array: the undefined values of the windows never raise. No entry of the
  result is NaN, and at every timepoint in the warm-up of the rolling operations the
  result is exactly 0, in every channel and whatever the data.
\<close>

theorem undefined_becomes_zero:
  assumes "wf_mat m" and "params_ok fps tau_0 tau_1 tau_2"
  shows "\<exists>out. dff_calc (A2 m) fps tau_0 tau_1 tau_2 invert flag = Inr (A2 out)
           \<and> (\<forall>row \<in> set (elems out). NaN \<notin> set row)
           \<and> (\<forall>c t. c < nrows m \<longrightarrow> t < ncols m \<longrightarrow> in_warm_up fps tau_0 tau_1 tau_2 t
                 \<longrightarrow> elems out ! c ! t = Fin 0)"
proof -
  obtain h w1 w2 mp where p: "apply_units_and_corrections fps tau_0 tau_1 tau_2 = (h, w1, w2, mp)"
    by (cases "apply_units_and_corrections fps tau_0 tau_1 tau_2") auto
  have w1: "0 \<le> w1" using assms(2) p by (simp add: params_ok_def)
  have mp: "1 \<le> mp" using p by (auto simp: apply_units_and_corrections_def Let_def)
  have len: "length (elems m) = nrows m"
    and rows: "\<And>c. c < nrows m \<Longrightarrow> length (elems m ! c) = ncols m"
    using assms(1) by (simp_all add: wf_mat_def list_all_length)
  let ?out = "\<lparr>nrows = nrows m, ncols = ncols m,
               elems = map (channel_of fps tau_0 tau_1 tau_2 invert flag) (elems m)\<rparr>"
  have ret: "dff_calc (A2 m) fps tau_0 tau_1 tau_2 invert flag = Inr (A2 ?out)"
    using assms(2) by (simp add: dff_calc_2d [OF assms(1)])
  have nonan: "\<forall>row \<in> set (elems ?out). NaN \<notin> set row"
    using channel_dff_no_NaN by (auto simp: channel_of_def p)
  have zero: "elems ?out ! c ! t = Fin 0"
    if "c < nrows m" and "t < ncols m" and "in_warm_up fps tau_0 tau_1 tau_2 t" for c t
  proof -
    let ?xs = "if invert then map fl_neg (elems m ! c) else elems m ! c"
    have t: "t < length ?xs" using that(1,2) rows by simp
    have "nat w1 = 0 \<or> t + 2 < nat w1 + nat mp"
      using that(3) w1 mp p by (auto simp: in_warm_up_def)
    then have "channel_dff h (nat w1) (nat w2) (nat mp) flag ?xs ! t = Fin 0"
      by (rule channel_dff_warmup [OF t])
    then show ?thesis using that(1) len by (simp add: channel_of_def p)
  qed
  show ?thesis using ret nonan zero by blast
qed

theorem undefined_becomes_zero_witness:
  "\<exists>out. dff_calc (A2 \<lparr>nrows = 1, ncols = 3, elems = [[Fin 1, Fin 2, Fin 3]]\<rparr>) 1 1 3 2 False False
           = Inr (A2 out)
         \<and> (\<forall>row \<in> set (elems out). NaN \<notin> set row)
         \<and> elems out ! 0 ! 0 = Fin 0 \<and> elems out ! 0 ! 1 = Fin 0"
proof -
  have ok: "params_ok 1 1 3 2"
    by (simp add: params_ok_def apply_units_and_corrections_def py_int_def)
  have warm: "in_warm_up 1 1 3 2 0" "in_warm_up 1 1 3 2 1"
    by (simp_all add: in_warm_up_def apply_units_and_corrections_def py_int_def)
  have wf: "wf_mat \<lparr>nrows = 1, ncols = 3, elems = [[Fin 1, Fin 2, Fin 3]]\<rparr>"
    by (simp add: wf_mat_def)
  from undefined_becomes_zero [OF wf ok, of False False] warm
  show ?thesis by force
qed

subsection \<open>The caller's array is not modified\<close>

lemma heap_ext_refl [simp]: "heap_ext h h"
  by (simp add: heap_ext_def)

lemma heap_ext_trans: "heap_ext h1 h2 \<Longrightarrow> heap_ext h2 h3 \<Longrightarrow> heap_ext h1 h3"
  by (auto simp: heap_ext_def)

lemma heap_ext_alloc [simp]: "heap_ext h (alloc h c)"
  by (simp add: heap_ext_def alloc_def)

lemma preserves_return [simp]: "preserves (return_st x)"
  by (simp add: preserves_def return_st_def)

lemma preserves_get_array [simp]: "preserves (get_array r)"
  by (simp add: preserves_def get_array_def)

lemma preserves_df_op [simp]: "preserves (df_op f r)"
  by (simp add: preserves_def df_op_def split: sum.splits)

lemma preserves_arr_op [simp]: "preserves (arr_op f r)"
  by (simp add: preserves_def arr_op_def split: sum.splits)

lemma preserves_arr_binop [simp]: "preserves (arr_binop f r1 r2)"
  by (simp add: preserves_def arr_binop_def split: sum.splits)

lemma preserves_bind [intro]:
  assumes "preserves m" and "\<And>x. preserves (f x)"
  shows "preserves (bind_st m f)"
  unfolding preserves_def
proof
  fix h
  obtain r h' where m: "m h = (r, h')" by (cases "m h")
  have 1: "heap_ext h h'" using assms(1) m by (auto simp: preserves_def dest: spec [of _ h])
  show "heap_ext h (snd (bind_st m f h))"
  proof (cases r)
    case (Inl e)
    then show ?thesis using 1 m by (simp add: bind_st_def)
  next
    case (Inr x)
    have "heap_ext h' (snd (f x h'))" using assms(2) [of x] by (simp add: preserves_def)
    then show ?thesis using 1 m Inr by (auto simp: bind_st_def intro: heap_ext_trans)
  qed
qed

lemma preserves_if [intro]: "preserves a \<Longrightarrow> preserves b \<Longrightarrow> preserves (if c then a else b)"
  by simp

lemma preserves_calc_f0_st [simp]: "preserves (calc_f0_st data tau_1 tau_2 min_per)"
  unfolding calc_f0_st_def Let_def by (intro preserves_bind preserves_df_op)

lemma preserves_calc_dff_unfiltered_st [simp]:
  "preserves (calc_dff_unfiltered_st f0 data flag off)"
  unfolding calc_dff_unfiltered_st_def Let_def
  by (intro preserves_bind preserves_if preserves_df_op preserves_arr_op preserves_arr_binop)

lemma preserves_filter_dff_st [simp]: "preserves (filter_dff_st u tau_0 min_per)"
  unfolding filter_dff_st_def by (intro preserves_bind preserves_df_op)

lemma preserves_dff_calc_st: "preserves (dff_calc_st data fps tau_0 tau_1 tau_2 invert flag)"
  unfolding dff_calc_st_def Let_def
  by (auto split: prod.splits intro!: preserves_bind preserves_if)

lemma base_array_reads:
  assumes "base_array h r"
  shows "read_arr h (aref_T r) = np_T (read_arr h r)"
    and "read_df h (frame_of r) = DataFrame (read_arr h r)"
    and "read_df h (frame_of (aref_T r)) = DataFrame (np_T (read_arr h r))"
proof -
  obtain a where r: "r = ARef a False" and "a < next_addr h"
    using assms by (cases r) auto
  obtain v where v: "cells h a = Some (ArrayBuf v)"
    using assms r by (auto split: option.splits cell.splits)
  show "read_arr h (aref_T r) = np_T (read_arr h r)"
    and "read_df h (frame_of r) = DataFrame (read_arr h r)"
    and "read_df h (frame_of (aref_T r)) = DataFrame (np_T (read_arr h r))"
    by (simp_all add: r v)
qed

lemma own_frame_reads:
  assumes "own_frame h r"
  shows "read_arr h (numpy_of r) = to_numpy (read_df h r)"
    and "read_arr h (aref_T (numpy_of r)) = np_T (to_numpy (read_df h r))"
proof -
  obtain a where r: "r = FRef a False" using assms by (cases r) auto
  obtain d where d: "cells h a = Some (FrameBlock d)"
    using assms r by (auto split: option.splits cell.splits)
  show "read_arr h (numpy_of r) = to_numpy (read_df h r)"
    and "read_arr h (aref_T (numpy_of r)) = np_T (to_numpy (read_df h r))"
    using assms by (simp_all add: r d)
qed

lemma heap_ext_cells: "heap_ext h h' \<Longrightarrow> a < next_addr h \<Longrightarrow> cells h' a = cells h a"
  by (simp add: heap_ext_def)

lemma heap_ext_next: "heap_ext h h' \<Longrightarrow> a < next_addr h \<Longrightarrow> a < next_addr h'"
  by (simp add: heap_ext_def)

lemma heap_ext_base_array:
  assumes "heap_ext h h'" and "base_array h r"
  shows "base_array h' r" and "read_arr h' r = read_arr h r"
proof -
  obtain a where r: "r = ARef a False" and a: "a < next_addr h"
    using assms(2) by (cases r) auto
  have c: "cells h' a = cells h a" by (rule heap_ext_cells [OF assms(1) a])
  show "base_array h' r" using assms(2) heap_ext_next [OF assms(1) a] by (simp add: r c)
  show "read_arr h' r = read_arr h r" by (simp add: r c)
qed

lemma heap_ext_own_frame:
  assumes "heap_ext h h'" and "own_frame h r"
  shows "own_frame h' r" and "read_df h' r = read_df h r"
proof -
  obtain a where r: "r = FRef a False" using assms(2) by (cases r) auto
  have a: "a < next_addr h" using assms(2) r by simp
  have c: "cells h' a = cells h a" by (rule heap_ext_cells [OF assms(1) a])
  show "own_frame h' r" using assms(2) heap_ext_next [OF assms(1) a] by (simp add: r c)
  show "read_df h' r = read_df h r" by (simp add: r c)
qed

lemma alloc_frame_reads:
  "own_frame (alloc h (FrameBlock d)) (FRef (next_addr h) False)"
  "read_df (alloc h (FrameBlock d)) (FRef (next_addr h) False) = d"
  by (simp_all add: alloc_def)

lemma alloc_array_reads:
  "base_array (alloc h (ArrayBuf v)) (ARef (next_addr h) False)"
  "read_arr (alloc h (ArrayBuf v)) (ARef (next_addr h) False) = v"
  by (simp_all add: alloc_def)

lemma refines_bind:
  assumes "refines h m p R" and "preserves m"
    and "\<And>h' x y. heap_ext h h' \<Longrightarrow> R h' x y \<Longrightarrow> refines h' (f x) (g y) S"
  shows "refines h (bind_st m f) (bind_err p g) S"
proof -
  obtain r h' where m: "m h = (r, h')" by (cases "m h")
  have ext: "heap_ext h h'" using assms(2) m by (auto simp: preserves_def dest: spec [of _ h])
  show ?thesis
  proof (cases r)
    case (Inl e)
    then show ?thesis using assms(1) m by (simp add: refines_def bind_st_def bind_err_def)
  next
    case (Inr x)
    then obtain y where p: "p = Inr y" and R: "R h' x y"
      using assms(1) m by (auto simp: refines_def split: sum.splits)
    have "refines h' (f x) (g y) S" by (rule assms(3) [OF ext R])
    then show ?thesis using m Inr p by (simp add: refines_def bind_st_def bind_err_def)
  qed
qed

lemma refines_df_op:
  assumes "read_df h r = d"
  shows "refines h (df_op f r) (f d) frame_rel"
  using assms alloc_frame_reads
  by (auto simp: refines_def df_op_def frame_rel_def split: sum.splits)

lemma refines_arr_op:
  assumes "read_arr h r = v"
  shows "refines h (arr_op f r) (f v) array_rel"
  using assms alloc_array_reads
  by (auto simp: refines_def arr_op_def array_rel_def split: sum.splits)

lemma refines_arr_binop:
  assumes "read_arr h r1 = v1" and "read_arr h r2 = v2"
  shows "refines h (arr_binop f r1 r2) (f v1 v2) array_rel"
  using assms alloc_array_reads
  by (auto simp: refines_def arr_binop_def array_rel_def split: sum.splits)

lemma refines_return:
  assumes "R h x y"
  shows "refines h (return_st x) (Inr y) R"
  using assms by (simp add: refines_def return_st_def)

lemma calc_f0_st_refines:
  assumes "array_rel h data D"
  shows "refines h (calc_f0_st data tau_1 tau_2 min_per) (calc_f0 D tau_1 tau_2 min_per) frame_rel"
proof -
  have rd: "read_df h (frame_of (aref_T data)) = DataFrame (np_T D)"
    using assms base_array_reads(3) [of h data] by (simp add: array_rel_def)
  show ?thesis
    unfolding calc_f0_st_def calc_f0_def Let_def
  proof (rule refines_bind [OF refines_df_op [OF rd] preserves_df_op])
    fix h1 avg_r avg
    assume "frame_rel h1 avg_r avg"
    then have r1: "read_df h1 avg_r = avg" by (simp add: frame_rel_def)
    show "refines h1
            (bind_st (df_op (rolling_min tau_2 min_per) avg_r)
               (df_op (\<lambda>d. Inr (df_add_scalar d float_eps))))
            (bind_err (rolling_min tau_2 min_per avg) (\<lambda>lowest. Inr (df_add_scalar lowest float_eps)))
            frame_rel"
    proof (rule refines_bind [OF refines_df_op [OF r1] preserves_df_op])
      fix h2 low_r lowest
      assume "frame_rel h2 low_r lowest"
      then have "read_df h2 low_r = lowest" by (simp add: frame_rel_def)
      then show "refines h2 (df_op (\<lambda>d. Inr (df_add_scalar d float_eps)) low_r)
                   (Inr (df_add_scalar lowest float_eps)) frame_rel"
        by (rule refines_df_op)
    qed
  qed
qed

lemma filter_dff_st_refines:
  assumes "frame_rel h u U"
  shows "refines h (filter_dff_st u tau_0 min_per) (filter_dff U tau_0 min_per) frame_rel"
proof -
  have rd: "read_df h u = U" using assms by (simp add: frame_rel_def)
  show ?thesis
    unfolding filter_dff_st_def filter_dff_def
  proof (rule refines_bind [OF refines_df_op [OF rd] preserves_df_op])
    fix h1 avg_r avg
    assume "frame_rel h1 avg_r avg"
    then have "read_df h1 avg_r = avg" by (simp add: frame_rel_def)
    then show "refines h1 (df_op (\<lambda>d. Inr (fillna d)) avg_r) (Inr (fillna avg)) frame_rel"
      by (rule refines_df_op)
  qed
qed

lemma frame_rel_ext: "heap_ext h h' \<Longrightarrow> frame_rel h r d \<Longrightarrow> frame_rel h' r d"
  using heap_ext_own_frame by (simp add: frame_rel_def)

lemma array_rel_ext: "heap_ext h h' \<Longrightarrow> array_rel h r v \<Longrightarrow> array_rel h' r v"
  using heap_ext_base_array by (simp add: array_rel_def)

lemma frame_rel_numpy: "frame_rel h r d \<Longrightarrow> read_arr h (numpy_of r) = to_numpy d"
  using own_frame_reads(1) by (auto simp: frame_rel_def)

lemma frame_rel_numpy_T: "frame_rel h r d \<Longrightarrow> read_arr h (aref_T (numpy_of r)) = np_T (to_numpy d)"
  using own_frame_reads(2) by (auto simp: frame_rel_def)

lemma array_rel_read: "array_rel h r v \<Longrightarrow> read_arr h r = v"
  by (simp add: array_rel_def)

lemma array_rel_T: "array_rel h r v \<Longrightarrow> read_arr h (aref_T r) = np_T v"
  using base_array_reads(1) by (auto simp: array_rel_def)

lemma array_rel_frame: "array_rel h r v \<Longrightarrow> read_df h (frame_of r) = DataFrame v"
  using base_array_reads(2) by (auto simp: array_rel_def)

lemma raw_ratio_standard_refines:
  assumes F: "frame_rel h f0 F" and D: "array_rel h data D"
  shows "refines h
           (bind_st (arr_binop (np_binop fl_sub) (aref_T data) (numpy_of f0))
              (\<lambda>num. arr_binop (np_binop fl_div) num (numpy_of f0)))
           (bind_err (np_binop fl_sub (np_T D) (to_numpy F))
              (\<lambda>num. np_binop fl_div num (to_numpy F)))
           array_rel"
proof (rule refines_bind [OF refines_arr_binop [OF array_rel_T [OF D] frame_rel_numpy [OF F]]
      preserves_arr_binop])
  fix h1 num_r num
  assume ext: "heap_ext h h1" and num: "array_rel h1 num_r num"
  show "refines h1 (arr_binop (np_binop fl_div) num_r (numpy_of f0))
          (np_binop fl_div num (to_numpy F)) array_rel"
    by (rule refines_arr_binop [OF array_rel_read [OF num]
          frame_rel_numpy [OF frame_rel_ext [OF ext F]]])
qed

lemma raw_ratio_low_background_refines:
  assumes F: "frame_rel h f0 F" and D: "array_rel h data D"
  shows "refines h
           (bind_st (arr_op (\<lambda>a. Inr (np_add_scalar a (2 * off))) (aref_T data)) (\<lambda>shifted.
            bind_st (arr_binop (np_binop fl_sub) shifted (numpy_of f0)) (\<lambda>num.
            bind_st (arr_op (\<lambda>a. Inr (np_add_scalar a off)) (numpy_of f0))
              (\<lambda>den. arr_binop (np_binop fl_div) num den))))
           (bind_err (Inr (np_add_scalar (np_T D) (2 * off))) (\<lambda>shifted.
            bind_err (np_binop fl_sub shifted (to_numpy F)) (\<lambda>num.
            bind_err (Inr (np_add_scalar (to_numpy F) off))
              (\<lambda>den. np_binop fl_div num den))))
           array_rel"
proof (rule refines_bind [OF refines_arr_op [OF array_rel_T [OF D]] preserves_arr_op])
  fix h1 sh_r sh
  assume e1: "heap_ext h h1" and sh: "array_rel h1 sh_r sh"
  have F1: "frame_rel h1 f0 F" by (rule frame_rel_ext [OF e1 F])
  show "refines h1
          (bind_st (arr_binop (np_binop fl_sub) sh_r (numpy_of f0)) (\<lambda>num.
           bind_st (arr_op (\<lambda>a. Inr (np_add_scalar a off)) (numpy_of f0))
             (\<lambda>den. arr_binop (np_binop fl_div) num den)))
          (bind_err (np_binop fl_sub sh (to_numpy F)) (\<lambda>num.
           bind_err (Inr (np_add_scalar (to_numpy F) off))
             (\<lambda>den. np_binop fl_div num den)))
          array_rel"
  proof (rule refines_bind [OF refines_arr_binop [OF array_rel_read [OF sh] frame_rel_numpy [OF F1]]
        preserves_arr_binop])
    fix h2 num_r num
    assume e2: "heap_ext h1 h2" and num: "array_rel h2 num_r num"
    have F2: "frame_rel h2 f0 F" by (rule frame_rel_ext [OF e2 F1])
    show "refines h2
            (bind_st (arr_op (\<lambda>a. Inr (np_add_scalar a off)) (numpy_of f0))
               (\<lambda>den. arr_binop (np_binop fl_div) num_r den))
            (bind_err (Inr (np_add_scalar (to_numpy F) off))
               (\<lambda>den. np_binop fl_div num den))
            array_rel"
    proof (rule refines_bind [OF refines_arr_op [OF frame_rel_numpy [OF F2]] preserves_arr_op])
      fix h3 den_r den
      assume e3: "heap_ext h2 h3" and den: "array_rel h3 den_r den"
      show "refines h3 (arr_binop (np_binop fl_div) num_r den_r) (np_binop fl_div num den) array_rel"
        by (rule refines_arr_binop [OF array_rel_read [OF array_rel_ext [OF e3 num]]
              array_rel_read [OF den]])
    qed
  qed
qed

lemma calc_dff_unfiltered_st_refines:
  assumes F: "frame_rel h f0 F" and D: "array_rel h data D"
  shows "refines h (calc_dff_unfiltered_st f0 data flag off)
           (calc_dff_unfiltered F D flag off) frame_rel"
proof -
  let ?m = "if flag
            then bind_st (arr_op (\<lambda>a. Inr (np_add_scalar a (2 * off))) (aref_T data)) (\<lambda>shifted.
                 bind_st (arr_binop (np_binop fl_sub) shifted (numpy_of f0)) (\<lambda>num.
                 bind_st (arr_op (\<lambda>a. Inr (np_add_scalar a off)) (numpy_of f0))
                   (\<lambda>den. arr_binop (np_binop fl_div) num den)))
            else bind_st (arr_binop (np_binop fl_sub) (aref_T data) (numpy_of f0))
                   (\<lambda>num. arr_binop (np_binop fl_div) num (numpy_of f0))"
  let ?p = "if flag
            then bind_err (Inr (np_add_scalar (np_T D) (2 * off))) (\<lambda>shifted.
                 bind_err (np_binop fl_sub shifted (to_numpy F)) (\<lambda>num.
                 bind_err (Inr (np_add_scalar (to_numpy F) off))
                   (\<lambda>den. np_binop fl_div num den)))
            else bind_err (np_binop fl_sub (np_T D) (to_numpy F))
                   (\<lambda>num. np_binop fl_div num (to_numpy F))"
  have pure: "calc_dff_unfiltered F D flag off
                = bind_err ?p (\<lambda>raw_calc. Inr (fillna (DataFrame raw_calc)))"
    by (simp add: calc_dff_unfiltered_def Let_def bind_err_def)
  have m: "refines h ?m ?p array_rel"
    using raw_ratio_low_background_refines [OF F D] raw_ratio_standard_refines [OF F D]
    by (cases flag) simp_all
  have pm: "preserves ?m"
    by (intro preserves_if preserves_bind preserves_arr_op preserves_arr_binop)
  show ?thesis
    unfolding pure calc_dff_unfiltered_st_def Let_def
  proof (rule refines_bind [OF m pm])
    fix h1 raw_r raw
    assume "array_rel h1 raw_r raw"
    then show "refines h1 (df_op (\<lambda>d. Inr (fillna d)) (frame_of raw_r))
                 (Inr (fillna (DataFrame raw))) frame_rel"
      using refines_df_op [OF array_rel_frame, of h1 raw_r raw "\<lambda>d. Inr (fillna d)"] by simp
  qed
qed

lemma refines_weaken:
  assumes "refines h m p R" and "\<And>h' x y. R h' x y \<Longrightarrow> S h' x y"
  shows "refines h m p S"
  using assms by (auto simp: refines_def split: prod.splits sum.splits)

lemma dff_calc_result_refines:
  assumes dff: "frame_rel h dff DFF" and D: "array_rel h data' D'"
  shows "refines h
           (bind_st (get_array data') (\<lambda>d.
              if ndim d = 1 then arr_op (\<lambda>a. Inr (atleast_2d (ravel a))) (numpy_of dff)
              else return_st (aref_T (numpy_of dff))))
           (if ndim D' = 1 then Inr (atleast_2d (ravel (to_numpy DFF)))
            else Inr (np_T (to_numpy DFF)))
           view_rel"
proof -
  have step: "bind_st (get_array data') (\<lambda>d.
              if ndim d = 1 then arr_op (\<lambda>a. Inr (atleast_2d (ravel a))) (numpy_of dff)
              else return_st (aref_T (numpy_of dff))) h
        = (if ndim D' = 1 then arr_op (\<lambda>a. Inr (atleast_2d (ravel a))) (numpy_of dff)
           else return_st (aref_T (numpy_of dff))) h"
    using array_rel_read [OF D] by (simp add: bind_st_def get_array_def)
  show ?thesis
  proof (cases "ndim D' = 1")
    case True
    have "refines h (arr_op (\<lambda>a. Inr (atleast_2d (ravel a))) (numpy_of dff))
            (Inr (atleast_2d (ravel (to_numpy DFF)))) array_rel"
      using refines_arr_op [OF frame_rel_numpy [OF dff], of "\<lambda>a. Inr (atleast_2d (ravel a))"]
      by simp
    then have "refines h (arr_op (\<lambda>a. Inr (atleast_2d (ravel a))) (numpy_of dff))
            (Inr (atleast_2d (ravel (to_numpy DFF)))) view_rel"
      by (rule refines_weaken) (simp add: array_rel_def view_rel_def)
    then show ?thesis using True step by (simp add: refines_def)
  next
    case False
    have "refines h (return_st (aref_T (numpy_of dff))) (Inr (np_T (to_numpy DFF))) view_rel"
      by (rule refines_return) (simp add: view_rel_def frame_rel_numpy_T [OF dff])
    then show ?thesis using False step by (simp add: refines_def)
  qed
qed

lemma dff_calc_st_refines:
  assumes D: "array_rel h data D"
  shows "refines h (dff_calc_st data fps tau_0 tau_1 tau_2 invert flag)
           (dff_calc D fps tau_0 tau_1 tau_2 invert flag) view_rel"
proof -
  obtain t0 t1 t2 mp where p: "apply_units_and_corrections fps tau_0 tau_1 tau_2 = (t0, t1, t2, mp)"
    by (cases "apply_units_and_corrections fps tau_0 tau_1 tau_2") auto
  let ?D' = "if invert then np_neg D else D"
  have pure: "dff_calc D fps tau_0 tau_1 tau_2 invert flag =
      bind_err (Inr ?D') (\<lambda>data'.
      bind_err (calc_f0 data' t1 t2 mp) (\<lambda>f0.
      bind_err (calc_dff_unfiltered f0 data' flag (5 / 100)) (\<lambda>unfiltered_dff.
      bind_err (filter_dff unfiltered_dff t0 mp) (\<lambda>dff.
        if ndim data' = 1 then Inr (atleast_2d (ravel (to_numpy dff)))
        else Inr (np_T (to_numpy dff))))))"
    by (simp add: dff_calc_def Let_def p bind_err_def)
  have st: "dff_calc_st data fps tau_0 tau_1 tau_2 invert flag =
      bind_st (if invert then arr_op (\<lambda>a. Inr (np_neg a)) data else return_st data) (\<lambda>data'.
      bind_st (calc_f0_st data' t1 t2 mp) (\<lambda>f0.
      bind_st (calc_dff_unfiltered_st f0 data' flag (5 / 100)) (\<lambda>unfiltered_dff.
      bind_st (filter_dff_st unfiltered_dff t0 mp) (\<lambda>dff.
      bind_st (get_array data') (\<lambda>d.
        if ndim d = 1 then arr_op (\<lambda>a. Inr (atleast_2d (ravel a))) (numpy_of dff)
        else return_st (aref_T (numpy_of dff)))))))"
    by (simp add: dff_calc_st_def Let_def p)
  have first: "refines h (if invert then arr_op (\<lambda>a. Inr (np_neg a)) data else return_st data)
                 (Inr ?D') array_rel"
  proof (cases invert)
    case True
    then show ?thesis
      using refines_arr_op [OF array_rel_read [OF D], of "\<lambda>a. Inr (np_neg a)"] by simp
  next
    case False
    then show ?thesis using refines_return [of array_rel, OF D] by simp
  qed
  have pfirst: "preserves (if invert then arr_op (\<lambda>a. Inr (np_neg a)) data else return_st data)"
    by simp
  show ?thesis
    unfolding pure st
  proof (rule refines_bind [OF first pfirst])
    fix h1 data' D'
    assume D1: "array_rel h1 data' D'"
    show "refines h1
            (bind_st (calc_f0_st data' t1 t2 mp) (\<lambda>f0.
             bind_st (calc_dff_unfiltered_st f0 data' flag (5 / 100)) (\<lambda>unfiltered_dff.
             bind_st (filter_dff_st unfiltered_dff t0 mp) (\<lambda>dff.
             bind_st (get_array data') (\<lambda>d.
               if ndim d = 1 then arr_op (\<lambda>a. Inr (atleast_2d (ravel a))) (numpy_of dff)
               else return_st (aref_T (numpy_of dff)))))))
            (bind_err (calc_f0 D' t1 t2 mp) (\<lambda>f0.
             bind_err (calc_dff_unfiltered f0 D' flag (5 / 100)) (\<lambda>unfiltered_dff.
             bind_err (filter_dff unfiltered_dff t0 mp) (\<lambda>dff.
               if ndim D' = 1 then Inr (atleast_2d (ravel (to_numpy dff)))
               else Inr (np_T (to_numpy dff))))))
            view_rel"
    proof (rule refines_bind [OF calc_f0_st_refines [OF D1] preserves_calc_f0_st])
      fix h2 f0 F
      assume e2: "heap_ext h1 h2" and F: "frame_rel h2 f0 F"
      have D2: "array_rel h2 data' D'" by (rule array_rel_ext [OF e2 D1])
      show "refines h2
              (bind_st (calc_dff_unfiltered_st f0 data' flag (5 / 100)) (\<lambda>unfiltered_dff.
               bind_st (filter_dff_st unfiltered_dff t0 mp) (\<lambda>dff.
               bind_st (get_array data') (\<lambda>d.
                 if ndim d = 1 then arr_op (\<lambda>a. Inr (atleast_2d (ravel a))) (numpy_of dff)
                 else return_st (aref_T (numpy_of dff))))))
              (bind_err (calc_dff_unfiltered F D' flag (5 / 100)) (\<lambda>unfiltered_dff.
               bind_err (filter_dff unfiltered_dff t0 mp) (\<lambda>dff.
                 if ndim D' = 1 then Inr (atleast_2d (ravel (to_numpy dff)))
                 else Inr (np_T (to_numpy dff)))))
              view_rel"
      proof (rule refines_bind [OF calc_dff_unfiltered_st_refines [OF F D2]
            preserves_calc_dff_unfiltered_st])
        fix h3 u U
        assume e3: "heap_ext h2 h3" and U: "frame_rel h3 u U"
        have D3: "array_rel h3 data' D'" by (rule array_rel_ext [OF e3 D2])
        show "refines h3
                (bind_st (filter_dff_st u t0 mp) (\<lambda>dff.
                 bind_st (get_array data') (\<lambda>d.
                   if ndim d = 1 then arr_op (\<lambda>a. Inr (atleast_2d (ravel a))) (numpy_of dff)
                   else return_st (aref_T (numpy_of dff)))))
                (bind_err (filter_dff U t0 mp) (\<lambda>dff.
                   if ndim D' = 1 then Inr (atleast_2d (ravel (to_numpy dff)))
                   else Inr (np_T (to_numpy dff))))
                view_rel"
        proof (rule refines_bind [OF filter_dff_st_refines [OF U] preserves_filter_dff_st])
          fix h4 dff DFF
          assume e4: "heap_ext h3 h4" and dff: "frame_rel h4 dff DFF"
          show "refines h4
                  (bind_st (get_array data') (\<lambda>d.
                     if ndim d = 1 then arr_op (\<lambda>a. Inr (atleast_2d (ravel a))) (numpy_of dff)
                     else return_st (aref_T (numpy_of dff))))
                  (if ndim D' = 1 then Inr (atleast_2d (ravel (to_numpy DFF)))
                   else Inr (np_T (to_numpy DFF)))
                  view_rel"
            by (rule dff_calc_result_refines [OF dff array_rel_ext [OF e4 D3]])
        qed
      qed
    qed
  qed
qed

text \<open>
  C10. Let the caller's array \<open>data\<close> own a buffer of the store. After \<open>dff_calc\<close>, whether
  it returned or raised, every cell that was allocated before the call holds what it
  held, so \<open>data\<close> reads the same values as before, also under \<open>invert=True\<close>; and the
  call on the store returns (or raises) what the value-level \<open>dff_calc\<close> does on the
  contents of \<open>data\<close>.
\<close>

theorem dff_calc_keeps_input:
  assumes "base_array h data"
  shows "case dff_calc_st data fps tau_0 tau_1 tau_2 invert flag h of
           (res, h') \<Rightarrow>
             (\<forall>a < next_addr h. cells h' a = cells h a) \<and>
             read_arr h' data = read_arr h data \<and>
             (case res of
                Inl e \<Rightarrow> dff_calc (read_arr h data) fps tau_0 tau_1 tau_2 invert flag = Inl e
              | Inr r \<Rightarrow> dff_calc (read_arr h data) fps tau_0 tau_1 tau_2 invert flag
                          = Inr (read_arr h' r))"
proof -
  obtain res h' where run: "dff_calc_st data fps tau_0 tau_1 tau_2 invert flag h = (res, h')"
    by (cases "dff_calc_st data fps tau_0 tau_1 tau_2 invert flag h")
  have ext: "heap_ext h h'"
    using preserves_dff_calc_st [of data fps tau_0 tau_1 tau_2 invert flag] run
    by (auto simp: preserves_def dest: spec [of _ h])
  have cells: "\<forall>a < next_addr h. cells h' a = cells h a"
    using ext by (simp add: heap_ext_def)
  have same: "read_arr h' data = read_arr h data"
    by (rule heap_ext_base_array(2) [OF ext assms])
  have "refines h (dff_calc_st data fps tau_0 tau_1 tau_2 invert flag)
          (dff_calc (read_arr h data) fps tau_0 tau_1 tau_2 invert flag) view_rel"
    by (rule dff_calc_st_refines) (simp add: array_rel_def assms)
  then have "case res of
                Inl e \<Rightarrow> dff_calc (read_arr h data) fps tau_0 tau_1 tau_2 invert flag = Inl e
              | Inr r \<Rightarrow> dff_calc (read_arr h data) fps tau_0 tau_1 tau_2 invert flag
                          = Inr (read_arr h' r)"
    using run by (auto simp: refines_def view_rel_def split: sum.splits)
  then show ?thesis using run cells same by simp
qed

theorem dff_calc_keeps_input_witness:
  "case dff_calc_st (ARef 0 False) 1 1 1 1 True False
          \<lparr>cells = [0 \<mapsto> ArrayBuf (A2 \<lparr>nrows = 1, ncols = 2, elems = [[Fin 1, Fin 2]]\<rparr>)],
           next_addr = 1\<rparr> of
     (res, h') \<Rightarrow>
       cells h' 0 = Some (ArrayBuf (A2 \<lparr>nrows = 1, ncols = 2, elems = [[Fin 1, Fin 2]]\<rparr>)) \<and>
       read_arr h' (ARef 0 False) = A2 \<lparr>nrows = 1, ncols = 2, elems = [[Fin 1, Fin 2]]\<rparr> \<and>
       (case res of
          Inl e \<Rightarrow> dff_calc (A2 \<lparr>nrows = 1, ncols = 2, elems = [[Fin 1, Fin 2]]\<rparr>)
                     1 1 1 1 True False = Inl e
        | Inr r \<Rightarrow> dff_calc (A2 \<lparr>nrows = 1, ncols = 2, elems = [[Fin 1, Fin 2]]\<rparr>)
                     1 1 1 1 True False = Inr (read_arr h' r))"
proof -
  let ?h = "\<lparr>cells = [0 \<mapsto> ArrayBuf (A2 \<lparr>nrows = 1, ncols = 2, elems = [[Fin 1, Fin 2]]\<rparr>)],
             next_addr = 1\<rparr>"
  have b: "base_array ?h (ARef 0 False)" by simp
  have r: "read_arr ?h (ARef 0 False) = A2 \<lparr>nrows = 1, ncols = 2, elems = [[Fin 1, Fin 2]]\<rparr>"
    by simp
  show ?thesis
    using dff_calc_keeps_input [OF b, of 1 1 1 1 True False] unfolding r
    by (auto split: prod.splits sum.splits)
qed

subsection \<open>Shapes in general\<close>

text \<open>A two-dimensional input of shape \<open>(C, T)\<close> gives a result of shape \<open>(C, T)\<close>.\<close>

lemma dff_calc_2d_shape:
  assumes "wf_mat m" and "dff_calc (A2 m) fps tau_0 tau_1 tau_2 invert flag = Inr out"
  shows "shape out = [nrows m, ncols m] \<and> wf_array out"
proof -
  have len: "length (elems m) = nrows m"
    and rows: "\<forall>r \<in> set (elems m). length r = ncols m"
    using assms(1) by (simp_all add: wf_mat_def list_all_iff)
  have "out = A2 \<lparr>nrows = nrows m, ncols = ncols m,
                   elems = map (channel_of fps tau_0 tau_1 tau_2 invert flag) (elems m)\<rparr>"
    using assms(2) unfolding dff_calc_2d [OF assms(1)] by (simp split: if_splits)
  then show ?thesis
    using len rows
    by (auto simp: wf_mat_def list_all_iff channel_of_def split: prod.splits)
qed

lemma mat_binop_shape:
  assumes "mat_binop f a b = Inr m"
  shows "bdim (nrows a) (nrows b) = Some (nrows m)" and "bdim (ncols a) (ncols b) = Some (ncols m)"
  using assms by (auto simp: mat_binop_def split: option.splits)

lemma np_binop_shape_2d:
  assumes "np_binop f a (A2 b) = Inr r"
  shows "\<exists>m. r = A2 m \<and> bdim (nrows (as_2d a)) (nrows b) = Some (nrows m)
              \<and> bdim (ncols (as_2d a)) (ncols b) = Some (ncols m)"
proof -
  obtain m where m: "mat_binop f (as_2d a) b = Inr m" and r: "r = A2 m"
    using assms by (auto simp: np_binop_def split: sum.splits)
  show ?thesis using mat_binop_shape [OF m] r by simp
qed

lemma as_2d_np_add_scalar:
  "nrows (as_2d (np_add_scalar a c)) = nrows (as_2d a)"
  "ncols (as_2d (np_add_scalar a c)) = ncols (as_2d a)"
  by (cases a; simp add: np_add_scalar_def mat_map_def)+

lemma calc_f0_1d_shape:
  assumes "calc_f0 (A1 ys) tau_1 tau_2 min_per = Inr f0"
  shows "df_len f0 = length ys" and "length (df_cols f0) = 1"
  using assms
  by (auto simp: calc_f0_def bind_err_def rolling_boxcar_mean_def rolling_min_def
      df_map_cols_def df_add_scalar_def split: if_splits)

lemma calc_dff_unfiltered_1d_shape:
  assumes "calc_dff_unfiltered f0 (A1 ys) flag off = Inr u"
    and "df_len f0 = length ys" and "length (df_cols f0) = 1"
  shows "df_len u = length ys" and "length (df_cols u) = length ys"
proof -
  let ?n = "length ys"
  obtain b where b: "to_numpy f0 = A2 b" and nb: "nrows b = ?n" "ncols b = 1"
    using assms(2,3) by (simp add: to_numpy_def)
  define lhs where "lhs = (if flag then np_add_scalar (np_T (A1 ys)) (2 * off) else np_T (A1 ys))"
  define den where "den = (if flag then np_add_scalar (A2 b) off else A2 b)"
  obtain d where d: "den = A2 d" and nd: "nrows d = ?n" "ncols d = 1"
    using nb by (cases flag) (simp_all add: den_def np_add_scalar_def mat_map_def)
  have l: "nrows (as_2d lhs) = 1" "ncols (as_2d lhs) = ?n"
    by (cases flag; simp add: lhs_def as_2d_np_add_scalar)+
  obtain num raw where num: "np_binop fl_sub lhs (A2 b) = Inr num"
    and raw: "np_binop fl_div num den = Inr raw" and u: "u = fillna (DataFrame raw)"
    using assms(1) b
    by (cases flag)
      (auto simp: calc_dff_unfiltered_def Let_def bind_err_def lhs_def den_def split: sum.splits)
  obtain m1 where m1: "num = A2 m1" and s1: "nrows m1 = ?n" "ncols m1 = ?n"
    using np_binop_shape_2d [OF num] l nb by (auto simp: bdim_def split: if_splits)
  obtain m2 where m2: "raw = A2 m2" and s2: "bdim ?n ?n = Some (nrows m2)" "bdim ?n 1 = Some (ncols m2)"
    using np_binop_shape_2d [OF raw [unfolded d]] m1 s1 nd by auto
  have "nrows m2 = ?n" "ncols m2 = ?n"
    using s2 by (auto simp: bdim_def split: if_splits)
  then show "df_len u = length ys" and "length (df_cols u) = length ys"
    by (simp_all add: u m2 fillna_def df_map_cols_def)
qed

lemma filter_dff_shape:
  assumes "filter_dff u tau_0 min_per = Inr d"
  shows "df_len d = df_len u" and "length (df_cols d) = length (df_cols u)"
  using assms
  by (auto simp: filter_dff_def ewm_mean_def bind_err_def fillna_def df_map_cols_def
      split: if_splits)

lemma length_ravel_to_numpy:
  "shape (atleast_2d (ravel (to_numpy d))) = [1, df_len d * length (df_cols d)]"
  by (simp add: to_numpy_def length_concat comp_def sum_list_triv)

text \<open>A one-dimensional input of length \<open>T\<close> gives a result of shape \<open>(1, T * T)\<close>.\<close>

lemma dff_calc_1d_shape:
  assumes "dff_calc (A1 xs) fps tau_0 tau_1 tau_2 invert flag = Inr out"
  shows "shape out = [1, length xs * length xs]"
proof -
  obtain t0 t1 t2 mp where p: "apply_units_and_corrections fps tau_0 tau_1 tau_2 = (t0, t1, t2, mp)"
    by (cases "apply_units_and_corrections fps tau_0 tau_1 tau_2") auto
  define ys where "ys = (if invert then map fl_neg xs else xs)"
  have data': "(if invert then np_neg (A1 xs) else A1 xs) = A1 ys" and n: "length ys = length xs"
    by (simp_all add: ys_def np_neg_def)
  obtain f0 u d where f0: "calc_f0 (A1 ys) t1 t2 mp = Inr f0"
    and u: "calc_dff_unfiltered f0 (A1 ys) flag (5 / 100) = Inr u"
    and d: "filter_dff u t0 mp = Inr d"
    and out: "out = atleast_2d (ravel (to_numpy d))"
    using assms unfolding dff_calc_def Let_def p data' prod.case
    by (auto simp: bind_err_def split: sum.splits)
  have "df_len u = length ys" "length (df_cols u) = length ys"
    using calc_dff_unfiltered_1d_shape [OF u calc_f0_1d_shape [OF f0]] by simp_all
  then have "df_len d = length xs" "length (df_cols d) = length xs"
    using filter_dff_shape [OF d] n by simp_all
  then show ?thesis unfolding out length_ravel_to_numpy by simp
qed

end
